theory Spec2Isabelle
  imports Complex_Main "HOL-Library.AList" "HOL-Library.Sublist"
begin

section \<open>Data model: a table of records\<close>

text \<open>
  The script works on one pandas table \<open>data\<close>. A cell is a number, a text, the missing
  value (NaN) or a calendar date (a day number, counted from 1970-01-01). A row lists its
  cells by column name, in column order; a table is the list of its rows, in row order.
\<close>

datatype cell = Num real | Str string | NaN | Date int

type_synonym row = "(string \<times> cell) list"
type_synonym frame = "row list"

datatype error = ValueError | AttributeError | KeyError | TypeError

section \<open>Data cleaning\<close>

text \<open>
  \<^verbatim>\<open>data.drop_duplicates(inplace=True)\<close>: a row is dropped when an earlier row has the
  same value in every column (missing values compare equal); the first occurrence stays.
\<close>

fun drop_dups_from :: "row list \<Rightarrow> frame \<Rightarrow> frame" where
  "drop_dups_from seen [] = []"
| "drop_dups_from seen (r # rs) =
     (if r \<in> set seen then drop_dups_from seen rs
      else r # drop_dups_from (r # seen) rs)"

definition drop_duplicates :: "frame \<Rightarrow> frame" where
  "drop_duplicates d = drop_dups_from [] d"

text \<open>\<^verbatim>\<open>data.fillna(0, inplace=True)\<close>: every missing cell becomes the number 0.\<close>

definition fill_cell :: "cell \<Rightarrow> cell" where
  "fill_cell c = (if c = NaN then Num 0 else c)"

definition fill_row :: "row \<Rightarrow> row" where
  "fill_row r = map (\<lambda>(k, c). (k, fill_cell c)) r"

definition fillna0 :: "frame \<Rightarrow> frame" where
  "fillna0 d = map fill_row d"

text \<open>The cleaning cell of the notebook: lines 72 and 75, in this order.\<close>

definition record_cleaner :: "frame \<Rightarrow> frame" where
  "record_cleaner d = fillna0 (drop_duplicates d)"

section \<open>Library functions used by the feature-engineering cell\<close>

text \<open>
  Reading a column, \<^verbatim>\<open>data[k]\<close>, raises KeyError when the table has no such column;
  assigning one, \<^verbatim>\<open>data[k] = values\<close>, replaces the column in place or appends it.
\<close>

definition getitem :: "string \<Rightarrow> frame \<Rightarrow> error + cell list" where
  "getitem k d =
     (case those (map (\<lambda>r. map_of r k) d) of None \<Rightarrow> Inl KeyError | Some cs \<Rightarrow> Inr cs)"

definition setitem :: "string \<Rightarrow> cell list \<Rightarrow> frame \<Rightarrow> frame" where
  "setitem k cs d = map (\<lambda>(r, c). AList.update k c r) (zip d cs)"

text \<open>An element-wise operation that raises at the first element it cannot convert.\<close>

fun sequence_err :: "(error + 'a) list \<Rightarrow> error + 'a list" where
  "sequence_err [] = Inr []"
| "sequence_err (x # xs) =
     (case x of Inl e \<Rightarrow> Inl e
      | Inr v \<Rightarrow> (case sequence_err xs of Inl e \<Rightarrow> Inl e | Inr vs \<Rightarrow> Inr (v # vs)))"

text \<open>Running the next statement only when the one before did not raise.\<close>

definition and_then :: "error + 'a \<Rightarrow> ('a \<Rightarrow> error + 'b) \<Rightarrow> error + 'b" where
  "and_then x f = (case x of Inl e \<Rightarrow> Inl e | Inr v \<Rightarrow> f v)"

text \<open>
  Reading a number from a text, as \<^verbatim>\<open>float(s)\<close> and \<^verbatim>\<open>pd.to_numeric\<close> do: blanks
  around it are ignored, then an optional sign, decimal digits and an optional fraction
  follow. The exponent, \<^verbatim>\<open>inf\<close>, \<^verbatim>\<open>nan\<close>, the digit-group underscores and the blanks
  beyond ASCII of Python's syntax are not part of this model, which is exact on the texts
  made of ASCII digits, signs, points and blanks.
\<close>

definition is_digit :: "char \<Rightarrow> bool" where
  "is_digit c = (48 \<le> (of_char c :: nat) \<and> (of_char c :: nat) \<le> 57)"

definition is_space :: "char \<Rightarrow> bool" where
  "is_space c = (c = CHR '' '' \<or> c = CHR 0x09 \<or> c = CHR 0x0A \<or> c = CHR 0x0B \<or>
                 c = CHR 0x0C \<or> c = CHR 0x0D)"

definition strip :: "string \<Rightarrow> string" where
  "strip s = rev (dropWhile is_space (rev (dropWhile is_space s)))"

definition digits_value :: "string \<Rightarrow> nat" where
  "digits_value s = foldl (\<lambda>a c. 10 * a + (of_char c - 48)) 0 s"

definition parse_unsigned :: "string \<Rightarrow> real option" where
  "parse_unsigned s =
     (let ip = takeWhile is_digit s; rest = dropWhile is_digit s in
      case rest of
        [] \<Rightarrow> (if ip = [] then None else Some (real (digits_value ip)))
      | c # fp \<Rightarrow>
          (if c = CHR ''.'' \<and> list_all is_digit fp \<and> (ip \<noteq> [] \<or> fp \<noteq> [])
           then Some (real (digits_value ip) + real (digits_value fp) / 10 ^ length fp)
           else None))"

definition parse_number :: "string \<Rightarrow> real option" where
  "parse_number s =
     (case strip s of
        [] \<Rightarrow> None
      | c # u \<Rightarrow>
          (if c = CHR ''-'' then map_option uminus (parse_unsigned u)
           else if c = CHR ''+'' then parse_unsigned u
           else parse_unsigned (c # u)))"

text \<open>
  \<^verbatim>\<open>pd.to_numeric(values, errors=...)\<close>, element by element. The empty text is read as
  the missing value. With \<^verbatim>\<open>errors='raise'\<close> (the default) any other text that is not a
  number raises ValueError; with \<^verbatim>\<open>errors='coerce'\<close> it becomes the missing value.
\<close>

fun to_numeric_raise :: "cell \<Rightarrow> error + cell" where
  "to_numeric_raise (Num x) = Inr (Num x)"
| "to_numeric_raise NaN = Inr NaN"
| "to_numeric_raise (Str s) =
     (if s = [] then Inr NaN
      else case parse_number s of None \<Rightarrow> Inl ValueError | Some x \<Rightarrow> Inr (Num x))"
| "to_numeric_raise (Date n) = Inl TypeError"

fun to_numeric_coerce :: "cell \<Rightarrow> cell" where
  "to_numeric_coerce (Num x) = Num x"
| "to_numeric_coerce NaN = NaN"
| "to_numeric_coerce (Str s) = (case parse_number s of None \<Rightarrow> NaN | Some x \<Rightarrow> Num x)"
| "to_numeric_coerce (Date n) = NaN"

subsection \<open>Calendar dates\<close>

definition is_leap :: "int \<Rightarrow> bool" where
  "is_leap y = (y mod 4 = 0 \<and> (y mod 100 \<noteq> 0 \<or> y mod 400 = 0))"

definition days_in_month :: "int \<Rightarrow> int \<Rightarrow> int" where
  "days_in_month y m =
     (if m = 2 then (if is_leap y then 29 else 28)
      else if m = 4 \<or> m = 6 \<or> m = 9 \<or> m = 11 then 30 else 31)"

text \<open>The day number of a date of the proleptic Gregorian calendar; 1970-01-01 is day 0.\<close>

definition days_from_civil :: "int \<Rightarrow> int \<Rightarrow> int \<Rightarrow> int" where
  "days_from_civil y m d =
     (let y' = (if m \<le> 2 then y - 1 else y);
          era = y' div 400;
          yoe = y' - era * 400;
          doy = (153 * (if m > 2 then m - 3 else m + 9) + 2) div 5 + d - 1;
          doe = yoe * 365 + yoe div 4 - yoe div 100 + doy
      in era * 146097 + doe - 719468)"

text \<open>
  \<^verbatim>\<open>pd.to_datetime\<close> on a mapping of year, month and day columns. pandas adds the three
  columns up as \<open>year * 10000 + month * 100 + day\<close> and reads the sum, without its
  fraction, with the format \<^verbatim>\<open>%Y%m%d\<close>; \<^verbatim>\<open>errors\<close> is left at \<^verbatim>\<open>'raise'\<close>, so a sum that is
  not a date raises ValueError ("cannot assemble the datetimes"). A timestamp has nanosecond resolution in
  64 bits, which bounds the day number by 106751 on both sides (1677-09-22 to
  2262-04-11); a date outside raises as well. A missing part gives the missing date.
\<close>

definition parse_yyyymmdd :: "real \<Rightarrow> error + cell" where
  "parse_yyyymmdd v =
     (let n = \<lfloor>v\<rfloor>; y = n div 10000; m = (n mod 10000) div 100; d = n mod 100 in
      if n < 10000000 \<or> 99999999 < n then Inl ValueError
      else if m < 1 \<or> 12 < m \<or> d < 1 \<or> days_in_month y m < d then Inl ValueError
      else if days_from_civil y m d < - 106751 \<or> 106751 < days_from_civil y m d
        then Inl ValueError
      else Inr (Date (days_from_civil y m d)))"

definition assemble :: "cell \<times> cell \<times> cell \<Rightarrow> error + cell" where
  "assemble ymd =
     (case ymd of
        (Num y, Num m, Num d) \<Rightarrow> parse_yyyymmdd (y * 10000 + m * 100 + d)
      | _ \<Rightarrow> Inr NaN)"

definition to_datetime :: "cell list \<Rightarrow> cell list \<Rightarrow> cell list \<Rightarrow> error + cell list" where
  "to_datetime years months days =
     and_then (sequence_err (map to_numeric_raise years)) (\<lambda>ys.
     and_then (sequence_err (map to_numeric_raise months)) (\<lambda>ms.
     and_then (sequence_err (map to_numeric_raise days)) (\<lambda>ds.
       sequence_err (map assemble (zip ys (zip ms ds))))))"

text \<open>
  \<^verbatim>\<open>(pd.Timestamp.now() - release_date).dt.days\<close>: the whole days between midnight of the
  release date and the current time, which is given in seconds since 1970-01-01.
\<close>

fun days_since :: "int \<Rightarrow> cell \<Rightarrow> cell" where
  "days_since now (Date n) = Num (of_int ((now - n * 86400) div 86400))"
| "days_since now c = NaN"

subsection \<open>Text columns\<close>

text \<open>
  The \<^verbatim>\<open>.str\<close> accessor exists only on a column of texts (texts mixed with other values
  count): on a column of numbers it raises AttributeError. \<^verbatim>\<open>.str.replace(',', '')\<close>
  deletes every comma of a text and gives the missing value for a cell that is no text.
  The table does not record the type of a column, so the type is read off the cells; a
  column without rows passes for a column of texts.
\<close>

fun is_Str :: "cell \<Rightarrow> bool" where
  "is_Str (Str s) = True"
| "is_Str c = False"

fun replace_comma :: "cell \<Rightarrow> cell" where
  "replace_comma (Str s) = Str (filter (\<lambda>c. c \<noteq> CHR '','') s)"
| "replace_comma c = NaN"

definition str_replace_comma :: "cell list \<Rightarrow> error + cell list" where
  "str_replace_comma cs =
     (if cs = [] \<or> list_ex is_Str cs then Inr (map replace_comma cs) else Inl AttributeError)"

text \<open>
  \<^verbatim>\<open>.astype(float)\<close> reads each text as a number and raises ValueError at a text that is
  none; \<^verbatim>\<open>.astype(int)\<close> cuts the fraction off and raises on a missing value. The model
  keeps the exact decimal and the exact whole number. The code rounds the decimal to the
  nearest 64-bit float and casts to a 64-bit integer; for a number written with at most
  15 digits both give the same whole number as the model (the float is exact on whole
  numbers below \<^verbatim>\<open>2^53\<close>, and rounding a decimal of 15 digits never reaches the next whole
  number), and the statements on counts below are for such texts. Beyond that the code
  rounds and wraps where the model does not.
\<close>

fun astype_float :: "cell \<Rightarrow> error + cell" where
  "astype_float (Num x) = Inr (Num x)"
| "astype_float NaN = Inr NaN"
| "astype_float (Str s) =
     (case parse_number s of None \<Rightarrow> Inl ValueError | Some x \<Rightarrow> Inr (Num x))"
| "astype_float (Date n) = Inl TypeError"

definition trunc_toward_zero :: "real \<Rightarrow> int" where
  "trunc_toward_zero x = (if 0 \<le> x then \<lfloor>x\<rfloor> else \<lceil>x\<rceil>)"

fun astype_int :: "cell \<Rightarrow> error + cell" where
  "astype_int (Num x) = Inr (Num (of_int (trunc_toward_zero x)))"
| "astype_int NaN = Inl ValueError"
| "astype_int (Str s) =
     (if s \<noteq> [] \<and> list_all is_digit s then Inr (Num (real (digits_value s))) else Inl ValueError)"
| "astype_int (Date n) = Inl TypeError"

text \<open>Lines 92 and 93: the same chain, on one column each.\<close>

definition normalize_count :: "cell list \<Rightarrow> error + cell list" where
  "normalize_count cs =
     and_then (str_replace_comma cs) (\<lambda>c1.
     and_then (sequence_err (map astype_float c1)) (\<lambda>c2.
       sequence_err (map astype_int (map fill_cell c2))))"

section \<open>Feature engineering\<close>

text \<open>Lines 85 to 89: the release date of every row, in a new column.\<close>

definition add_release_date :: "frame \<Rightarrow> error + frame" where
  "add_release_date d =
     and_then (getitem ''released_year'' d) (\<lambda>years.
     and_then (getitem ''released_month'' d) (\<lambda>months.
     and_then (getitem ''released_day'' d) (\<lambda>days.
     and_then (to_datetime years months days) (\<lambda>dates.
       Inr (setitem ''release_date'' dates d)))))"

text \<open>Line 91; \<open>now\<close> is the time of the run in seconds since 1970-01-01.\<close>

definition add_days_since_release :: "int \<Rightarrow> frame \<Rightarrow> error + frame" where
  "add_days_since_release now d =
     and_then (getitem ''release_date'' d) (\<lambda>dates.
       Inr (setitem ''days_since_release'' (map (days_since now) dates) d))"

text \<open>Lines 92 and 93, for the column \<open>k\<close>.\<close>

definition normalize_column :: "string \<Rightarrow> frame \<Rightarrow> error + frame" where
  "normalize_column k d =
     and_then (getitem k d) (\<lambda>cs.
     and_then (normalize_count cs) (\<lambda>cs'.
       Inr (setitem k cs' d)))"

text \<open>Lines 96 and 97: the target as a number, and the rows without one dropped.\<close>

definition streams_to_numeric :: "frame \<Rightarrow> error + frame" where
  "streams_to_numeric d =
     and_then (getitem ''streams'' d) (\<lambda>streams.
       Inr (setitem ''streams'' (map to_numeric_coerce streams) d))"

definition dropna_streams :: "frame \<Rightarrow> frame" where
  "dropna_streams d = filter (\<lambda>r. map_of r ''streams'' \<noteq> Some NaN) d"

text \<open>
  Lines 85 to 97 of the script, in order; an exception of any statement ends the cell
  (and with it the run), so each step is taken only when the one before returned.
\<close>

definition feature_deriver :: "int \<Rightarrow> frame \<Rightarrow> error + frame" where
  "feature_deriver now d =
     and_then (add_release_date d) (\<lambda>d1.
     and_then (add_days_since_release now d1) (\<lambda>d2.
     and_then (normalize_column ''in_deezer_playlists'' d2) (\<lambda>d3.
     and_then (normalize_column ''in_shazam_charts'' d3) (\<lambda>d4.
     and_then (streams_to_numeric d4) (\<lambda>d5.
       Inr (dropna_streams d5))))))"

section \<open>The estimators of the libraries\<close>

text \<open>
  The script calls scikit-learn, XGBoost and NumPy for everything random or learned.
  Those results are not computed by the script, so the model takes them as given
  functions: what the isolation forest built with \<^verbatim>\<open>random_state=42\<close> on a matrix scores
  a sample, the permutation of \<open>0..<n\<close> that a generator seeded with 42 draws first, and
  the predictor each learner returns for a training matrix and target. Numbers are reals:
  rounding of floating-point arithmetic is not modelled.
\<close>

type_synonym matrix = "real list list"
type_synonym vector = "real list"
type_synonym predictor = "real list \<Rightarrow> real"

datatype activation = Relu | Logistic
datatype solver = Adam | Lbfgs

record mlp_params =
  activation :: activation
  alpha :: real
  hidden_layer_sizes :: "nat list"
  max_iter :: nat
  solver :: solver

record library =
  iso_score :: "matrix \<Rightarrow> real list \<Rightarrow> real"
  permutation42 :: "nat \<Rightarrow> nat list"
  linear_regression :: "matrix \<Rightarrow> vector \<Rightarrow> predictor"
  mlp_regressor :: "mlp_params \<Rightarrow> matrix \<Rightarrow> vector \<Rightarrow> predictor"
  xgb_booster :: "nat \<Rightarrow> matrix \<Rightarrow> vector \<Rightarrow> predictor"

section \<open>Anomaly detection\<close>

definition numeric_features :: "string list" where
  "numeric_features =
     [''artist_count'', ''released_year'', ''released_month'', ''released_day'',
      ''in_spotify_playlists'', ''in_spotify_charts'', ''in_apple_playlists'',
      ''in_apple_charts'', ''in_deezer_playlists'', ''in_deezer_charts'',
      ''in_shazam_charts'', ''bpm'', ''danceability_%'', ''valence_%'', ''energy_%'',
      ''acousticness_%'', ''instrumentalness_%'', ''liveness_%'', ''speechiness_%'',
      ''days_since_release'']"

text \<open>
  An estimator reads the selected columns as a matrix of numbers: a text that is no
  number and a missing value are rejected. (In a run no missing value gets this far: the
  cleaning cell has filled them.)
\<close>

fun as_float :: "cell \<Rightarrow> error + real" where
  "as_float (Num x) = Inr x"
| "as_float NaN = Inl ValueError"
| "as_float (Str s) = (case parse_number s of None \<Rightarrow> Inl ValueError | Some x \<Rightarrow> Inr x)"
| "as_float (Date n) = Inl TypeError"

definition select_columns :: "string list \<Rightarrow> frame \<Rightarrow> error + cell list list" where
  "select_columns ks d =
     (case those (map (\<lambda>r. those (map (map_of r) ks)) d) of
        None \<Rightarrow> Inl KeyError | Some cs \<Rightarrow> Inr cs)"

definition as_matrix :: "cell list list \<Rightarrow> error + matrix" where
  "as_matrix cs = sequence_err (map (\<lambda>r. sequence_err (map as_float r)) cs)"

text \<open>
  \<^verbatim>\<open>np.percentile(scores, 5)\<close> with linear interpolation between the two order statistics
  around position \<open>(n - 1) * 5 / 100\<close>.
\<close>

definition percentile5 :: "real list \<Rightarrow> real" where
  "percentile5 xs =
     (let s = sort xs; n = length xs;
          h = (real n - 1) / 20;
          lo = nat \<lfloor>h\<rfloor>; hi = min (lo + 1) (n - 1)
      in s ! lo + (s ! hi - s ! lo) * (h - real lo))"

text \<open>
  \<^verbatim>\<open>IsolationForest(contamination=0.05, random_state=42).fit_predict(X)\<close>: the threshold is
  the 5th percentile of the scores of the training samples, and a sample is labelled -1
  when its score lies below the threshold, 1 otherwise. An empty matrix is rejected.
\<close>

definition fit_predict :: "library \<Rightarrow> matrix \<Rightarrow> error + real list" where
  "fit_predict L X =
     (if X = [] then Inl ValueError
      else let scores = map (iso_score L X) X; offset = percentile5 scores
           in Inr (map (\<lambda>s. if s - offset < 0 then - 1 else 1) scores))"

text \<open>Lines 121 to 128: label the rows, keep those labelled 1.\<close>

definition outlier_filter :: "library \<Rightarrow> frame \<Rightarrow> error + frame" where
  "outlier_filter L d =
     and_then (select_columns numeric_features d) (\<lambda>cs.
     and_then (as_matrix cs) (\<lambda>X.
     and_then (fit_predict L X) (\<lambda>anomalies.
       Inr (filter (\<lambda>r. map_of r ''anomaly'' = Some (Num 1))
              (setitem ''anomaly'' (map Num anomalies) d)))))"

section \<open>Splitting, scaling and scoring\<close>

record split =
  X_train :: matrix
  X_test :: matrix
  y_train :: vector
  y_test :: vector

text \<open>
  \<^verbatim>\<open>train_test_split(X, y, test_size=0.2, random_state=42)\<close>: the test part has
  \<open>\<lceil>0.2 * n\<rceil>\<close> rows, the first ones of the seeded permutation; the rest of the permutation
  is the training part. An empty training part is rejected. The rows are picked by
  index; the indices of a permutation of \<open>0..<n\<close> are in range.
\<close>

definition take_rows :: "'a list \<Rightarrow> nat list \<Rightarrow> 'a list" where
  "take_rows xs idx = map (\<lambda>i. xs ! i) idx"

definition train_test_split :: "library \<Rightarrow> matrix \<Rightarrow> vector \<Rightarrow> error + split" where
  "train_test_split L X y =
     (let n = length X; n_test = (n + 4) div 5; n_train = n - n_test in
      if length y \<noteq> n \<or> n_train = 0 then Inl ValueError
      else let perm = permutation42 L n;
               ind_test = take n_test perm;
               ind_train = take n_train (drop n_test perm)
           in Inr \<lparr>X_train = take_rows X ind_train, X_test = take_rows X ind_test,
                   y_train = take_rows y ind_train, y_test = take_rows y ind_test\<rparr>)"

text \<open>
  \<^verbatim>\<open>StandardScaler\<close>: \<^verbatim>\<open>fit\<close> stores the mean and the standard deviation (of the
  population, dividing by \<open>n\<close>) of every column. A column that scikit-learn takes for
  constant is given the scale 1: that is a column whose variance does not exceed the
  bound \<^verbatim>\<open>n * eps * var + (n * mean * eps)^2\<close> of its rounding error, with the machine
  epsilon \<^verbatim>\<open>eps = 2^-52\<close> of 64-bit floats; a column of variance 0 is one.
  \<^verbatim>\<open>transform\<close> subtracts the stored mean and divides by the stored scale. Means are taken of non-empty lists only: a split has at least one row on
  either side, and so has every fold of five or more rows.
\<close>

definition mean :: "real list \<Rightarrow> real" where
  "mean xs = sum_list xs / real (length xs)"

definition variance :: "real list \<Rightarrow> real" where
  "variance xs = mean (map (\<lambda>x. (x - mean xs)\<^sup>2) xs)"

definition std :: "real list \<Rightarrow> real" where
  "std xs = sqrt (variance xs)"

definition column :: "nat \<Rightarrow> matrix \<Rightarrow> real list" where
  "column j X = map (\<lambda>r. r ! j) X"

definition columns :: "matrix \<Rightarrow> real list list" where
  "columns X = map (\<lambda>j. column j X) [0..<length (hd X)]"

record scaler =
  fitted_mean :: "real list"
  fitted_scale :: "real list"

definition float_eps :: real where
  "float_eps = 1 / 2 ^ 52"

definition is_constant_feature :: "real \<Rightarrow> real \<Rightarrow> nat \<Rightarrow> bool" where
  "is_constant_feature var mu n_samples =
     (var \<le> real n_samples * float_eps * var + (real n_samples * mu * float_eps)\<^sup>2)"

definition scaler_fit :: "matrix \<Rightarrow> scaler" where
  "scaler_fit X =
     \<lparr>fitted_mean = map mean (columns X),
      fitted_scale =
        map (\<lambda>c. if is_constant_feature (variance c) (mean c) (length c) then 1 else std c)
          (columns X)\<rparr>"

definition scaler_transform :: "scaler \<Rightarrow> matrix \<Rightarrow> matrix" where
  "scaler_transform sc X =
     map (\<lambda>r. map (\<lambda>(x, m, s). (x - m) / s) (zip r (zip (fitted_mean sc) (fitted_scale sc)))) X"

text \<open>
  The four metrics of \<^verbatim>\<open>sklearn.metrics\<close>, on the true and the predicted targets. (On a
  single sample \<^verbatim>\<open>r2_score\<close> is not a number in the code; a completed run scores at least
  two test samples.)
\<close>

definition mean_squared_error :: "vector \<Rightarrow> vector \<Rightarrow> real" where
  "mean_squared_error y_true y_pred = mean (map (\<lambda>(t, p). (t - p)\<^sup>2) (zip y_true y_pred))"

definition root_mean_squared_error :: "vector \<Rightarrow> vector \<Rightarrow> real" where
  "root_mean_squared_error y_true y_pred = sqrt (mean_squared_error y_true y_pred)"

definition mean_absolute_error :: "vector \<Rightarrow> vector \<Rightarrow> real" where
  "mean_absolute_error y_true y_pred = mean (map (\<lambda>(t, p). \<bar>t - p\<bar>) (zip y_true y_pred))"

definition r2_score :: "vector \<Rightarrow> vector \<Rightarrow> real" where
  "r2_score y_true y_pred =
     (let ss_res = sum_list (map (\<lambda>(t, p). (t - p)\<^sup>2) (zip y_true y_pred));
          ss_tot = sum_list (map (\<lambda>t. (t - mean y_true)\<^sup>2) y_true)
      in if ss_tot = 0 then (if ss_res = 0 then 1 else 0) else 1 - ss_res / ss_tot)"

section \<open>Cross-validation\<close>

text \<open>
  Both \<^verbatim>\<open>KFold(5)\<close> and \<^verbatim>\<open>np.array_split(idx, 5)\<close> cut a list of \<open>n\<close> indices into five
  consecutive blocks, the first \<open>n mod 5\<close> of them one longer than the others.
\<close>

definition fold_sizes :: "nat \<Rightarrow> nat \<Rightarrow> nat list" where
  "fold_sizes n k = map (\<lambda>i. n div k + (if i < n mod k then 1 else 0)) [0..<k]"

fun split_sizes :: "nat list \<Rightarrow> 'a list \<Rightarrow> 'a list list" where
  "split_sizes [] xs = []"
| "split_sizes (s # ss) xs = take s xs # split_sizes ss (drop s xs)"

definition array_split :: "'a list \<Rightarrow> nat \<Rightarrow> 'a list list" where
  "array_split idx k = split_sizes (fold_sizes (length idx) k) idx"

text \<open>
  \<^verbatim>\<open>cv=5\<close> for a regressor is \<^verbatim>\<open>KFold(n_splits=5)\<close> without shuffling: the test folds are
  the blocks of \<open>0..<n\<close>, each training part is the rest in ascending order. Fewer than
  five samples are rejected.
\<close>

definition kfold :: "nat \<Rightarrow> error + (nat list \<times> nat list) list" where
  "kfold n =
     (if n < 5 then Inl ValueError
      else Inr (map (\<lambda>test. (filter (\<lambda>i. i \<notin> set test) [0..<n], test))
                  (array_split [0..<n] 5)))"

text \<open>
  The folds of \<^verbatim>\<open>xgb.cv(..., nfold=5, seed=42)\<close>: the rows are shuffled with the seeded
  permutation, the test folds are its blocks, and a training part is the other blocks
  put together.
\<close>

definition xgb_folds :: "library \<Rightarrow> nat \<Rightarrow> (nat list \<times> nat list) list" where
  "xgb_folds L n =
     (let out = array_split (permutation42 L n) 5
      in map (\<lambda>k. (concat (map (\<lambda>i. out ! i) (filter (\<lambda>i. i \<noteq> k) [0..<5])), out ! k))
           [0..<5])"

text \<open>One fold: fit on the training rows, score the predictions for the test rows.\<close>

definition fold_score ::
  "(vector \<Rightarrow> vector \<Rightarrow> real) \<Rightarrow> (matrix \<Rightarrow> vector \<Rightarrow> predictor) \<Rightarrow> matrix \<Rightarrow> vector \<Rightarrow>
     nat list \<times> nat list \<Rightarrow> real" where
  "fold_score metric fit X y f =
     (case f of (train, test) \<Rightarrow>
        metric (take_rows y test)
          (map (fit (take_rows X train) (take_rows y train)) (take_rows X test)))"

text \<open>
  \<^verbatim>\<open>cross_val_score(estimator, X, y, cv=5, scoring=...)\<close> returns the five scores; the
  scorers \<^verbatim>\<open>neg_...\<close> are the negated errors.
\<close>

definition cross_val_score ::
  "(vector \<Rightarrow> vector \<Rightarrow> real) \<Rightarrow> (matrix \<Rightarrow> vector \<Rightarrow> predictor) \<Rightarrow> matrix \<Rightarrow> vector \<Rightarrow>
     error + real list" where
  "cross_val_score metric fit X y =
     (case kfold (length X) of Inl e \<Rightarrow> Inl e
      | Inr folds \<Rightarrow> Inr (map (\<lambda>f. - fold_score metric fit X y f) folds))"

text \<open>
  The grid of line 243, in the order \<^verbatim>\<open>ParameterGrid\<close> enumerates it (keys sorted by
  name, the last key changing fastest).
\<close>

definition param_grid :: "mlp_params list" where
  "param_grid =
     [\<lparr>activation = a, alpha = al, hidden_layer_sizes = [24, 24, 24, 24, 24],
       max_iter = mi, solver = s\<rparr>.
      a \<leftarrow> [Relu, Logistic], al \<leftarrow> [0.001, 0.01], mi \<leftarrow> [3000, 4000], s \<leftarrow> [Adam, Lbfgs]]"

fun best_of :: "('a \<times> real) list \<Rightarrow> 'a \<times> real \<Rightarrow> 'a" where
  "best_of [] b = fst b"
| "best_of (c # cs) b = best_of cs (if snd b < snd c then c else b)"

text \<open>
  \<^verbatim>\<open>GridSearchCV(..., cv=5, scoring='neg_mean_squared_error').fit(X, y)\<close>: the mean of the
  five fold scores of every candidate; the first candidate with the highest mean wins.
\<close>

definition grid_search :: "library \<Rightarrow> matrix \<Rightarrow> vector \<Rightarrow> error + mlp_params" where
  "grid_search L X y =
     and_then
       (sequence_err
          (map (\<lambda>p. and_then (cross_val_score mean_squared_error (mlp_regressor L p) X y)
                       (\<lambda>scores. Inr (p, mean scores))) param_grid))
       (\<lambda>results. case results of [] \<Rightarrow> Inl ValueError | c # cs \<Rightarrow> Inr (best_of cs c))"

text \<open>
  \<^verbatim>\<open>xgb.cv(params, dmatrix, num_boost_round, nfold=5, metrics=['rmse'], seed=42)\<close>: one row
  for every boosting round, with the mean and the standard deviation over the folds of
  the RMSE on the training part and on the test part, in the column order
  train-rmse-mean, train-rmse-std, test-rmse-mean, test-rmse-std.
\<close>

definition xgb_cv :: "library \<Rightarrow> matrix \<Rightarrow> vector \<Rightarrow> nat \<Rightarrow> real list list" where
  "xgb_cv L X y num_boost_round =
     map (\<lambda>r.
        let folds = xgb_folds L (length X);
            train_rmse = map (\<lambda>(train, test).
               fold_score root_mean_squared_error (xgb_booster L r) X y (train, train)) folds;
            test_rmse = map (fold_score root_mean_squared_error (xgb_booster L r) X y) folds
        in [mean train_rmse, std train_rmse, mean test_rmse, std test_rmse])
       [1..<Suc num_boost_round]"

text \<open>\<^verbatim>\<open>DataFrame.mean()\<close>: the mean of every column of the table.\<close>

definition frame_mean :: "real list list \<Rightarrow> real list" where
  "frame_mean t = map mean (columns t)"

section \<open>Model creation and comparison\<close>

text \<open>
  What the modelling cells hand to the libraries is recorded call by call, in the order
  of the script: the matrix the scaler is fitted on and each matrix it transforms, the
  matrix and target every learner is fitted on, the matrix it predicts from, and every
  metric that is computed, with the true targets, the predictions and the value.
\<close>

datatype model_id = Linear | NeuralNet | XGBoost

datatype metric = MSE | RMSE | MAE | R2

datatype call =
    ScalerFit matrix
  | ScalerTransform matrix
  | Fit model_id matrix vector
  | GridSearchFit matrix vector
  | Predict model_id matrix
  | Score model_id metric vector vector real
  | CrossVal model_id matrix vector

record outcome =
  calls :: "call list"
  cross_val_score_lin_reg :: real
  cross_val_score_nn :: real
  cross_val_score_xgboost :: real

text \<open>
  Lines 199 to 326, with the feature matrix \<open>X\<close> and the target \<open>y\<close> of line 195. The
  plots are left out. The script stops at the first call that raises.
\<close>

definition linear_calls :: "library \<Rightarrow> split \<Rightarrow> call list" where
  "linear_calls L s =
     (let scaler = scaler_fit (X_train s);
          X_train_scaled = scaler_transform scaler (X_train s);
          X_test_scaled = scaler_transform scaler (X_test s);
          model = linear_regression L X_train_scaled (y_train s);
          y_pred = map model X_test_scaled
      in [ScalerFit (X_train s), ScalerTransform (X_train s), ScalerTransform (X_test s),
          Fit Linear X_train_scaled (y_train s), Predict Linear X_test_scaled,
          Score Linear MSE (y_test s) y_pred (mean_squared_error (y_test s) y_pred),
          Score Linear RMSE (y_test s) y_pred (root_mean_squared_error (y_test s) y_pred),
          Score Linear MAE (y_test s) y_pred (mean_absolute_error (y_test s) y_pred),
          Score Linear R2 (y_test s) y_pred (r2_score (y_test s) y_pred)])"

definition nn_calls :: "library \<Rightarrow> scaler \<Rightarrow> mlp_params \<Rightarrow> split \<Rightarrow> call list" where
  "nn_calls L scaler best_params s =
     (let X_train_scaled = scaler_transform scaler (X_train s);
          X_test_scaled = scaler_transform scaler (X_test s);
          best_neural_net = mlp_regressor L best_params X_train_scaled (y_train s);
          y_pred = map best_neural_net X_test_scaled
      in [GridSearchFit X_train_scaled (y_train s),
          Fit NeuralNet X_train_scaled (y_train s), Predict NeuralNet X_test_scaled,
          Score NeuralNet MSE (y_test s) y_pred (mean_squared_error (y_test s) y_pred),
          Score NeuralNet R2 (y_test s) y_pred (r2_score (y_test s) y_pred)])"

definition xgb_calls :: "library \<Rightarrow> split \<Rightarrow> call list" where
  "xgb_calls L s =
     (let xgb_model = xgb_booster L 100 (X_train s) (y_train s);
          y_pred = map xgb_model (X_test s)
      in [CrossVal XGBoost (X_train s) (y_train s),
          Fit XGBoost (X_train s) (y_train s), Predict XGBoost (X_test s),
          Score XGBoost R2 (y_test s) y_pred (r2_score (y_test s) y_pred)])"

definition model_stage :: "library \<Rightarrow> matrix \<Rightarrow> vector \<Rightarrow> error + outcome" where
  "model_stage L X y =
     and_then (train_test_split L X y) (\<lambda>s1.
     let scaler = scaler_fit (X_train s1) in
     and_then (grid_search L (scaler_transform scaler (X_train s1)) (y_train s1)) (\<lambda>best_params.
     and_then (train_test_split L X y) (\<lambda>s2.
     let X_scaled = scaler_transform scaler X in
     and_then (cross_val_score root_mean_squared_error (linear_regression L) X_scaled y)
       (\<lambda>lin_scores.
     and_then (cross_val_score root_mean_squared_error (mlp_regressor L best_params) X_scaled y)
       (\<lambda>nn_scores.
       Inr \<lparr>calls = linear_calls L s1 @ nn_calls L scaler best_params s1 @ xgb_calls L s2 @
                     [ScalerTransform X, CrossVal Linear X_scaled y,
                      CrossVal NeuralNet X_scaled y, CrossVal XGBoost X y],
            cross_val_score_lin_reg = mean (map uminus lin_scores),
            cross_val_score_nn = mean (map uminus nn_scores),
            cross_val_score_xgboost = frame_mean (xgb_cv L X y 100) ! 2\<rparr>)))))"

section \<open>The whole run\<close>

text \<open>
  The cells in order, from the table read from the file to the comparison of the models;
  \<open>now\<close> is the time of the run in seconds since 1970-01-01.
\<close>

definition pipeline :: "library \<Rightarrow> int \<Rightarrow> frame \<Rightarrow> error + outcome" where
  "pipeline L now d =
     and_then (feature_deriver now (record_cleaner d)) (\<lambda>d1.
     and_then (outlier_filter L d1) (\<lambda>d2.
     and_then (select_columns numeric_features d2) (\<lambda>cs.
     and_then (getitem ''streams'' d2) (\<lambda>ys.
     and_then (as_matrix cs) (\<lambda>X.
     and_then (sequence_err (map as_float ys)) (\<lambda>y.
       model_stage L X y))))))"

section \<open>Vocabulary of the statements\<close>

text \<open>
  What line 85 does for one row: the three parts are looked up, read as numbers and put
  together. The column-wise code succeeds exactly when this succeeds on every row.
\<close>

definition lookup :: "string \<Rightarrow> row \<Rightarrow> error + cell" where
  "lookup k r = (case map_of r k of None \<Rightarrow> Inl KeyError | Some c \<Rightarrow> Inr c)"

definition row_release_date :: "row \<Rightarrow> error + cell" where
  "row_release_date r =
     and_then (lookup ''released_year'' r) (\<lambda>y.
     and_then (lookup ''released_month'' r) (\<lambda>m.
     and_then (lookup ''released_day'' r) (\<lambda>d.
     and_then (to_numeric_raise y) (\<lambda>y'.
     and_then (to_numeric_raise m) (\<lambda>m'.
     and_then (to_numeric_raise d) (\<lambda>d'.
       assemble (y', m', d')))))))"

text \<open>A day that exists in the calendar.\<close>

definition valid_date :: "int \<Rightarrow> int \<Rightarrow> int \<Rightarrow> bool" where
  "valid_date y m d = (1 \<le> m \<and> m \<le> 12 \<and> 1 \<le> d \<and> d \<le> days_in_month y m)"

text \<open>
  The normal form of a count as the specification words it: the separators removed, the
  text read as a number without its fraction, and 0 for everything that is no number.
\<close>

fun count_value :: "cell \<Rightarrow> cell" where
  "count_value (Str s) =
     (case parse_number (filter (\<lambda>c. c \<noteq> CHR '','') s) of
        None \<Rightarrow> Num 0 | Some x \<Rightarrow> Num (of_int (trunc_toward_zero x)))"
| "count_value c = Num 0"

fun numeric_text :: "cell \<Rightarrow> bool" where
  "numeric_text (Str s) = (parse_number (filter (\<lambda>c. c \<noteq> CHR '','') s) \<noteq> None)"
| "numeric_text c = True"

text \<open>
  A text made of digits, thousands separators, a decimal point, a sign and blanks only,
  with at most 15 digits: on such texts the model of the conversions is exact.
\<close>

definition plain_char :: "char \<Rightarrow> bool" where
  "plain_char c = (is_digit c \<or> c = CHR '','' \<or> c = CHR ''.'' \<or> c = CHR ''+'' \<or>
                   c = CHR ''-'' \<or> c = CHR '' '')"

fun plain_text :: "cell \<Rightarrow> bool" where
  "plain_text (Str s) = (list_all plain_char s \<and> length (filter is_digit s) \<le> 15)"
| "plain_text c = True"

text \<open>What is required of the seeded generator: its list is a permutation of \<open>0..<n\<close>.\<close>

definition is_permutation :: "nat list \<Rightarrow> nat \<Rightarrow> bool" where
  "is_permutation p n = (sort p = [0..<n])"

text \<open>
  Readings of the recorded calls: the matrices a learner was fitted on and predicted
  from, the true targets its metrics were computed against, the metrics computed for it
  (with the predictions they were computed from and their values), and the calls of the
  scaler.
\<close>

definition fit_inputs :: "model_id \<Rightarrow> call list \<Rightarrow> matrix list" where
  "fit_inputs m cs = [Xf. Fit m' Xf yf \<leftarrow> cs, m' = m]"

definition predict_inputs :: "model_id \<Rightarrow> call list \<Rightarrow> matrix list" where
  "predict_inputs m cs = [Xp. Predict m' Xp \<leftarrow> cs, m' = m]"

definition score_targets :: "model_id \<Rightarrow> call list \<Rightarrow> vector list" where
  "score_targets m cs = [yt. Score m' k yt yp v \<leftarrow> cs, m' = m]"

definition scores_of :: "model_id \<Rightarrow> call list \<Rightarrow> (metric \<times> vector \<times> real) list" where
  "scores_of m cs = [(k, yp, v). Score m' k yt yp v \<leftarrow> cs, m' = m]"

fun is_scaler_call :: "call \<Rightarrow> bool" where
  "is_scaler_call (ScalerFit M) = True"
| "is_scaler_call (ScalerTransform M) = True"
| "is_scaler_call c = False"

text \<open>The calls of a run that completed; a run that raised reports nothing.\<close>

definition run_calls :: "error + outcome \<Rightarrow> call list" where
  "run_calls r = (case r of Inl e \<Rightarrow> [] | Inr out \<Rightarrow> calls out)"

definition run_cv_xgboost :: "error + outcome \<Rightarrow> real option" where
  "run_cv_xgboost r = (case r of Inl e \<Rightarrow> None | Inr out \<Rightarrow> Some (cross_val_score_xgboost out))"

definition crossval_inputs :: "model_id \<Rightarrow> call list \<Rightarrow> matrix list" where
  "crossval_inputs m cs = [Xc. CrossVal m' Xc yc \<leftarrow> cs, m' = m]"

section \<open>Example tables\<close>

definition ex_two_rows :: frame where
  "ex_two_rows = [[(''bpm'', Num 1), (''streams'', NaN)], [(''bpm'', Num 1), (''streams'', Num 0)]]"


text \<open>A row with the columns the feature engineering reads; the release month is February 2023.\<close>

definition ex_row :: "string \<Rightarrow> string \<Rightarrow> real \<Rightarrow> row" where
  "ex_row deezer streams day =
     [(''track_name'', Str ''Song''), (''released_year'', Num 2023), (''released_month'', Num 2),
      (''released_day'', Num day), (''in_deezer_playlists'', Str deezer),
      (''in_shazam_charts'', Str ''1,021''), (''streams'', Str streams)]"

text \<open>
  Stand-ins for the libraries in closed examples: the score of a sample is its first
  feature, the permutation is the identity, the linear model predicts 0, the network 1
  and the booster the number of its rounds.
\<close>

definition ex_library :: library where
  "ex_library =
     \<lparr>iso_score = (\<lambda>X r. hd r), permutation42 = (\<lambda>n. [0..<n]),
      linear_regression = (\<lambda>X y r. 0), mlp_regressor = (\<lambda>p X y r. 1),
      xgb_booster = (\<lambda>n X y r. real n)\<rparr>"

text \<open>A row after the feature engineering, with one artist count and one target.\<close>

definition ex_song :: "real \<Rightarrow> real \<Rightarrow> row" where
  "ex_song a s =
     [(''track_name'', Str ''Song''), (''artist_count'', Num a), (''released_year'', Num 2023),
      (''released_month'', Num 2), (''released_day'', Num 28),
      (''in_spotify_playlists'', Num 553), (''in_spotify_charts'', Num 147),
      (''streams'', Num s), (''in_apple_playlists'', Num 43), (''in_apple_charts'', Num 263),
      (''in_deezer_playlists'', Num 45), (''in_deezer_charts'', Num 10),
      (''in_shazam_charts'', Num 826), (''bpm'', Num 125), (''key'', Str ''B''),
      (''mode'', Str ''Major''), (''danceability_%'', Num 80), (''valence_%'', Num 89),
      (''energy_%'', Num 83), (''acousticness_%'', Num 31), (''instrumentalness_%'', Num 0),
      (''liveness_%'', Num 8), (''speechiness_%'', Num 4), (''release_date'', Date 19416),
      (''days_since_release'', Num 259)]"

text \<open>Seven samples of one feature, with the target 0 throughout.\<close>

definition ex_X :: matrix where
  "ex_X = [[1], [2], [3], [4], [5], [6], [7]]"

definition ex_y :: vector where
  "ex_y = [0, 0, 0, 0, 0, 0, 0]"

text \<open>The split of the seven samples under the identity permutation.\<close>

definition ex_split :: split where
  "ex_split = \<lparr>X_train = [[3], [4], [5], [6], [7]], X_test = [[1], [2]],
                y_train = [0, 0, 0, 0, 0], y_test = [0, 0]\<rparr>"

section \<open>Properties of the cleaning step\<close>

lemma drop_dups_from_set:
  "set (drop_dups_from seen d) = set d - set seen"
  by (induction d arbitrary: seen) auto

lemma drop_dups_from_distinct:
  "distinct (drop_dups_from seen d)"
  by (induction d arbitrary: seen) (auto simp: drop_dups_from_set)

lemma drop_dups_from_id:
  "distinct d \<Longrightarrow> set d \<inter> set seen = {} \<Longrightarrow> drop_dups_from seen d = d"
  by (induction d arbitrary: seen) auto

lemma drop_dups_from_length:
  "length (drop_dups_from seen d) \<le> length d"
  by (induction d arbitrary: seen) (auto simp: le_SucI)

lemma drop_dups_from_fixed:
  "drop_dups_from seen d = d \<Longrightarrow> distinct d"
proof (induction d arbitrary: seen)
  case Nil
  then show ?case by simp
next
  case (Cons r rs)
  show ?case
  proof (cases "r \<in> set seen")
    case True
    with Cons.prems have "drop_dups_from seen rs = r # rs" by simp
    then have "length (r # rs) \<le> length rs"
      using drop_dups_from_length [of seen rs] by simp
    then show ?thesis by simp
  next
    case False
    with Cons.prems have eq: "drop_dups_from (r # seen) rs = rs" by simp
    then have "distinct rs" by (rule Cons.IH)
    moreover have "r \<notin> set rs"
      using drop_dups_from_set [of "r # seen" rs] eq by auto
    ultimately show ?thesis by simp
  qed
qed

lemma fill_cell_idem: "fill_cell (fill_cell c) = fill_cell c"
  by (simp add: fill_cell_def)

lemma fill_row_idem: "fill_row (fill_row r) = fill_row r"
  by (induction r) (auto simp: fill_row_def fill_cell_idem)

lemma fillna0_idem: "fillna0 (fillna0 d) = fillna0 d"
  by (simp add: fillna0_def fill_row_idem)

lemma fillna0_drop_dups_from:
  "fillna0 (drop_dups_from seen (fillna0 d)) = drop_dups_from seen (fillna0 d)"
proof (induction d arbitrary: seen)
  case Nil
  then show ?case by (simp add: fillna0_def)
next
  case (Cons r rs)
  then show ?case
    using fill_row_idem [of r] by (simp add: fillna0_def)
qed

text \<open>
  C8, as stated: a second pass of the cleaning step over its own output removes no row.
  It fails on a table of two rows that differ only in that one has a missing value
  where the other has 0: the first pass keeps both and fills the gap, which makes them
  equal, and the second pass drops one of them.
\<close>

theorem record_cleaner_twice_counterexample:
  "record_cleaner (record_cleaner ex_two_rows) \<noteq> record_cleaner ex_two_rows"
  by (simp add: record_cleaner_def drop_duplicates_def fillna0_def fill_row_def
      fill_cell_def ex_two_rows_def)

text \<open>
  C8, amended: a second pass of the cleaning step changes no value; it only removes the
  rows that repeat an earlier row of the cleaned table, and so it returns the cleaned
  table unchanged exactly when the first pass left no two equal rows.
\<close>

theorem record_cleaner_twice:
  "record_cleaner (record_cleaner d) = drop_duplicates (record_cleaner d) \<and>
   (record_cleaner (record_cleaner d) = record_cleaner d) = distinct (record_cleaner d)"
proof -
  have a: "record_cleaner (record_cleaner d) = drop_duplicates (record_cleaner d)"
    unfolding record_cleaner_def drop_duplicates_def
    by (rule fillna0_drop_dups_from)
  have "(drop_duplicates (record_cleaner d) = record_cleaner d) = distinct (record_cleaner d)"
    unfolding drop_duplicates_def
    using drop_dups_from_fixed [of "[]" "record_cleaner d"]
      drop_dups_from_id [of "record_cleaner d" "[]"] by auto
  with a show ?thesis by simp
qed

theorem record_cleaner_twice_witness:
  "record_cleaner (record_cleaner [[(''bpm'', NaN)], [(''bpm'', Num 2)]]) =
     [[(''bpm'', Num 0)], [(''bpm'', Num 2)]] \<and>
   distinct (record_cleaner [[(''bpm'', NaN)], [(''bpm'', Num 2)]])"
  using record_cleaner_twice [of "[[(''bpm'', NaN)], [(''bpm'', Num 2)]]"]
  by (simp add: record_cleaner_def drop_duplicates_def fillna0_def fill_row_def fill_cell_def)

section \<open>Properties of the feature engineering\<close>

lemma and_then_Inr [simp]: "and_then (Inr v) f = f v"
  by (simp add: and_then_def)

lemma and_then_Inl [simp]: "and_then (Inl e) f = Inl e"
  by (simp add: and_then_def)

lemma and_then_eq_Inr:
  "and_then x f = Inr z \<longleftrightarrow> (\<exists>v. x = Inr v \<and> f v = Inr z)"
  by (cases x) simp_all

lemma sequence_err_map_Inr:
  "(\<And>x. x \<in> set xs \<Longrightarrow> f x = Inr (g x)) \<Longrightarrow> sequence_err (map f xs) = Inr (map g xs)"
  by (induction xs) simp_all

lemma sequence_err_map_Inl:
  "(\<And>x. x \<in> set xs \<Longrightarrow> f x = Inr (g x) \<or> f x = Inl e) \<Longrightarrow> \<exists>x\<in>set xs. f x = Inl e \<Longrightarrow>
     sequence_err (map f xs) = Inl e"
proof (induction xs)
  case Nil
  then show ?case by simp
next
  case (Cons a xs)
  show ?case
  proof (cases "f a")
    case (Inl e')
    with Cons.prems(1) [of a] show ?thesis by simp
  next
    case (Inr v)
    with Cons.prems(2) have "\<exists>x\<in>set xs. f x = Inl e" by auto
    with Cons.IH Cons.prems(1) have "sequence_err (map f xs) = Inl e" by simp
    with Inr show ?thesis by simp
  qed
qed

lemma sequence_err_Inr_iff: "sequence_err xs = Inr ys \<longleftrightarrow> xs = map Inr ys"
proof (induction xs arbitrary: ys)
  case Nil
  then show ?case by auto
next
  case (Cons a xs)
  show ?case
  proof (cases a)
    case (Inl e)
    then show ?thesis by (cases ys) auto
  next
    case (Inr v)
    then show ?thesis using Cons.IH
      by (cases ys; cases "sequence_err xs") auto
  qed
qed

lemma sequence_err_isl: "\<exists>x\<in>set xs. isl x \<Longrightarrow> isl (sequence_err xs)"
proof (induction xs)
  case Nil
  then show ?case by simp
next
  case (Cons a xs)
  show ?case
  proof (cases a)
    case (Inl e)
    then show ?thesis by simp
  next
    case (Inr v)
    with Cons.prems have "\<exists>x\<in>set xs. isl x" by auto
    then have "isl (sequence_err xs)" by (rule Cons.IH)
    with Inr show ?thesis by (cases "sequence_err xs") simp_all
  qed
qed

lemma normalize_cell_ok:
  "numeric_text c \<Longrightarrow> astype_float (replace_comma c) = Inr (case c of Str s \<Rightarrow> Num (the (parse_number (filter (\<lambda>c. c \<noteq> CHR '','') s))) | _ \<Rightarrow> NaN)"
  by (cases c) auto

lemma normalize_cell_2:
  "numeric_text c \<Longrightarrow> astype_int (fill_cell (case c of Str s \<Rightarrow> Num (the (parse_number (filter (\<lambda>c. c \<noteq> CHR '','') s))) | _ \<Rightarrow> NaN)) = Inr (count_value c)"
  by (cases c) (auto simp: fill_cell_def trunc_toward_zero_def)

lemma normalize_cell_bad:
  "\<not> numeric_text c \<Longrightarrow> astype_float (replace_comma c) = Inl ValueError"
  by (cases c) auto

lemma normalize_count_spec:
  assumes "list_ex is_Str cs"
  shows "normalize_count cs =
    (if list_all numeric_text cs then Inr (map count_value cs) else Inl ValueError)"
proof -
  let ?g = "\<lambda>c. case c of Str s \<Rightarrow> Num (the (parse_number (filter (\<lambda>c. c \<noteq> CHR '','') s))) | _ \<Rightarrow> NaN"
  have r: "str_replace_comma cs = Inr (map replace_comma cs)"
    using assms by (simp add: str_replace_comma_def)
  show ?thesis
  proof (cases "list_all numeric_text cs")
    case True
    then have a: "\<And>c. c \<in> set cs \<Longrightarrow> numeric_text c" by (simp add: list_all_iff)
    have 1: "sequence_err (map astype_float (map replace_comma cs)) = Inr (map ?g cs)"
      unfolding map_map by (rule sequence_err_map_Inr) (simp add: a normalize_cell_ok)
    have 2: "sequence_err (map astype_int (map fill_cell (map ?g cs))) = Inr (map count_value cs)"
      unfolding map_map by (rule sequence_err_map_Inr) (simp add: a normalize_cell_2)
    show ?thesis using True by (simp only: normalize_count_def r and_then_Inr 1 2 if_True)
  next
    case False
    then have ex: "\<exists>c\<in>set cs. (astype_float \<circ> replace_comma) c = Inl ValueError"
      using normalize_cell_bad by (fastforce simp: list_all_iff)
    have "sequence_err (map astype_float (map replace_comma cs)) = Inl ValueError"
      unfolding map_map
    proof (rule sequence_err_map_Inl [where g = ?g])
      fix c assume "c \<in> set cs"
      show "(astype_float \<circ> replace_comma) c = Inr (?g c) \<or> (astype_float \<circ> replace_comma) c = Inl ValueError"
        using normalize_cell_ok [of c] normalize_cell_bad [of c] by (cases "numeric_text c") auto
    qed (rule ex)
    then show ?thesis using False by (simp only: normalize_count_def r and_then_Inr and_then_Inl if_False)
  qed
qed

lemma those_map_Some_iff: "those (map f xs) = Some ys \<longleftrightarrow> map f xs = map Some ys"
proof (induction xs arbitrary: ys)
  case Nil
  then show ?case by auto
next
  case (Cons a xs)
  show ?case
  proof (cases "f a")
    case None
    then show ?thesis by (cases ys) auto
  next
    case (Some v)
    then show ?thesis using Cons.IH
      by (cases ys; cases "those (map f xs)") auto
  qed
qed

lemma getitem_Inr_iff: "getitem k d = Inr cs \<longleftrightarrow> map (\<lambda>r. map_of r k) d = map Some cs"
proof (cases "those (map (\<lambda>r. map_of r k) d)")
  case None
  then have "map (\<lambda>r. map_of r k) d \<noteq> map Some cs"
    using those_map_Some_iff [of "\<lambda>r. map_of r k" d cs] by simp
  with None show ?thesis by (simp add: getitem_def)
next
  case (Some vs)
  then have v: "map (\<lambda>r. map_of r k) d = map Some vs" by (simp add: those_map_Some_iff)
  have "(vs = cs) = (map Some vs = map Some cs)" by (simp add: inj_map_eq_map)
  with Some v show ?thesis by (simp add: getitem_def)
qed

lemma getitem_map:
  assumes "\<And>r. r \<in> set d \<Longrightarrow> map_of r k = Some (g r)"
  shows "getitem k d = Inr (map g d)"
  unfolding getitem_Inr_iff using assms by simp

lemma getitem_length: "getitem k d = Inr cs \<Longrightarrow> length cs = length d"
  unfolding getitem_Inr_iff by (metis length_map)

lemma getitem_nth:
  "getitem k d = Inr cs \<Longrightarrow> i < length d \<Longrightarrow> map_of (d ! i) k = Some (cs ! i)"
  unfolding getitem_Inr_iff by (metis length_map nth_map)

lemma sequence_err_map_nth:
  assumes "sequence_err (map f xs) = Inr ys" "i < length xs"
  shows "f (xs ! i) = Inr (ys ! i)"
proof -
  from assms(1) have "map f xs = map Inr ys" by (simp add: sequence_err_Inr_iff)
  then show ?thesis using assms(2) by (metis length_map nth_map)
qed

lemma sequence_err_map_length:
  "sequence_err (map f xs) = Inr ys \<Longrightarrow> length ys = length xs"
  by (metis sequence_err_Inr_iff length_map)

lemma setitem_length: "length cs = length d \<Longrightarrow> length (setitem k cs d) = length d"
  by (simp add: setitem_def)

lemma setitem_rows:
  "r' \<in> set (setitem k cs d) \<Longrightarrow> \<exists>r\<in>set d. \<exists>c\<in>set cs. r' = AList.update k c r"
  by (auto simp: setitem_def dest: set_zip_leftD set_zip_rightD)

lemma setitem_preserves:
  assumes "\<And>r. r \<in> set d \<Longrightarrow> P r" "\<And>r c. P r \<Longrightarrow> c \<in> set cs \<Longrightarrow> P (AList.update k c r)"
  shows "\<forall>r\<in>set (setitem k cs d). P r"
  using assms setitem_rows by blast

lemma getitem_setitem:
  "length cs = length d \<Longrightarrow> getitem k (setitem k cs d) = Inr cs"
proof (induction d arbitrary: cs)
  case Nil
  then show ?case by (simp add: getitem_def setitem_def)
next
  case (Cons r d)
  then obtain c cs' where cs: "cs = c # cs'" by (cases cs) auto
  with Cons.prems have "length cs' = length d" by simp
  then have "getitem k (setitem k cs' d) = Inr cs'" by (rule Cons.IH)
  then show ?case unfolding getitem_Inr_iff cs
    by (simp add: setitem_def update_conv')
qed

lemma add_release_date_Inr:
  assumes "add_release_date d = Inr d1"
  shows "\<exists>dates. length dates = length d \<and> d1 = setitem ''release_date'' dates d \<and>
           (\<forall>i<length d. row_release_date (d ! i) = Inr (dates ! i))"
proof -
  from assms obtain ys ms ds ys' ms' ds' dates where
    g: "getitem ''released_year'' d = Inr ys" "getitem ''released_month'' d = Inr ms"
       "getitem ''released_day'' d = Inr ds"
    and n: "sequence_err (map to_numeric_raise ys) = Inr ys'"
       "sequence_err (map to_numeric_raise ms) = Inr ms'"
       "sequence_err (map to_numeric_raise ds) = Inr ds'"
    and a: "sequence_err (map assemble (zip ys' (zip ms' ds'))) = Inr dates"
    and d1: "d1 = setitem ''release_date'' dates d"
    unfolding add_release_date_def to_datetime_def and_then_eq_Inr by auto
  have len: "length ys = length d" "length ms = length d" "length ds = length d"
    "length ys' = length d" "length ms' = length d" "length ds' = length d"
    using g n by (simp_all add: getitem_length sequence_err_map_length)
  then have ld: "length dates = length d"
    using sequence_err_map_length [OF a] by simp
  have "row_release_date (d ! i) = Inr (dates ! i)" if i: "i < length d" for i
  proof -
    have 1: "lookup ''released_year'' (d ! i) = Inr (ys ! i)"
      "lookup ''released_month'' (d ! i) = Inr (ms ! i)"
      "lookup ''released_day'' (d ! i) = Inr (ds ! i)"
      using g i by (simp_all add: lookup_def getitem_nth)
    have 2: "to_numeric_raise (ys ! i) = Inr (ys' ! i)"
      "to_numeric_raise (ms ! i) = Inr (ms' ! i)" "to_numeric_raise (ds ! i) = Inr (ds' ! i)"
      using n i len by (simp_all add: sequence_err_map_nth)
    have "i < length (zip ys' (zip ms' ds'))" using i len by simp
    then have "assemble (zip ys' (zip ms' ds') ! i) = Inr (dates ! i)"
      by (rule sequence_err_map_nth [OF a])
    then have 3: "assemble (ys' ! i, ms' ! i, ds' ! i) = Inr (dates ! i)"
      using i len by simp
    show ?thesis by (simp add: row_release_date_def 1 2 3)
  qed
  with ld d1 show ?thesis by blast
qed

lemma zip3_map: "zip (map f d) (zip (map g d) (map h d)) = map (\<lambda>r. (f r, g r, h r)) d"
  by (induction d) simp_all

lemma add_release_date_total:
  assumes "\<And>r. r \<in> set d \<Longrightarrow> \<exists>c. row_release_date r = Inr c"
  shows "\<exists>dates. length dates = length d \<and>
           add_release_date d = Inr (setitem ''release_date'' dates d)"
proof -
  define gy where "gy r = the (map_of r ''released_year'')" for r :: row
  define gm where "gm r = the (map_of r ''released_month'')" for r :: row
  define gd where "gd r = the (map_of r ''released_day'')" for r :: row
  define ny where "ny r = projr (to_numeric_raise (gy r))" for r
  define nm where "nm r = projr (to_numeric_raise (gm r))" for r
  define nd where "nd r = projr (to_numeric_raise (gd r))" for r
  define dt where "dt r = projr (row_release_date r)" for r
  have row: "map_of r ''released_year'' = Some (gy r) \<and> map_of r ''released_month'' = Some (gm r)
      \<and> map_of r ''released_day'' = Some (gd r) \<and> to_numeric_raise (gy r) = Inr (ny r)
      \<and> to_numeric_raise (gm r) = Inr (nm r) \<and> to_numeric_raise (gd r) = Inr (nd r)
      \<and> assemble (ny r, nm r, nd r) = Inr (dt r)" if "r \<in> set d" for r
  proof -
    from assms [OF that] obtain c where c: "row_release_date r = Inr c" by blast
    then obtain y m dd y' m' d' where
      "lookup ''released_year'' r = Inr y" "lookup ''released_month'' r = Inr m"
      "lookup ''released_day'' r = Inr dd" "to_numeric_raise y = Inr y'"
      "to_numeric_raise m = Inr m'" "to_numeric_raise dd = Inr d'" "assemble (y', m', d') = Inr c"
      unfolding row_release_date_def and_then_eq_Inr by auto
    then show ?thesis using c
      by (auto simp: gy_def gm_def gd_def ny_def nm_def nd_def dt_def lookup_def
          split: option.splits)
  qed
  have g: "getitem ''released_year'' d = Inr (map gy d)"
    "getitem ''released_month'' d = Inr (map gm d)" "getitem ''released_day'' d = Inr (map gd d)"
    by (rule getitem_map, simp add: row)+
  have n: "sequence_err (map to_numeric_raise (map gy d)) = Inr (map ny d)"
    "sequence_err (map to_numeric_raise (map gm d)) = Inr (map nm d)"
    "sequence_err (map to_numeric_raise (map gd d)) = Inr (map nd d)"
    unfolding map_map by (rule sequence_err_map_Inr, simp add: row)+
  have a: "sequence_err (map assemble (zip (map ny d) (zip (map nm d) (map nd d)))) = Inr (map dt d)"
    unfolding zip3_map map_map by (rule sequence_err_map_Inr) (simp add: row)
  have "add_release_date d = Inr (setitem ''release_date'' (map dt d) d)"
    by (simp only: add_release_date_def to_datetime_def g n a and_then_Inr)
  then show ?thesis by (intro exI [of _ "map dt d"]) simp
qed

lemma parse_invalid:
  assumes "1000 \<le> y" "y \<le> 9999" "0 \<le> m" "m \<le> 99" "0 \<le> dd" "dd \<le> 99"
    and "\<not> valid_date y m dd"
  shows "parse_yyyymmdd (of_int y * 10000 + of_int m * 100 + of_int dd) = Inl ValueError"
proof -
  let ?n = "y * 10000 + m * 100 + dd"
  have r: "(of_int y * 10000 + of_int m * 100 + of_int dd :: real) = of_int ?n" by simp
  have k: "0 \<le> m * 100 + dd" "m * 100 + dd < 10000" using assms(3-6) by simp_all
  have e1: "?n = (m * 100 + dd) + y * 10000" by simp
  have 1: "?n div 10000 = y"
    unfolding e1 using k by simp
  have m1: "?n mod 10000 = m * 100 + dd"
    unfolding e1 using k by (simp only: mod_mult_self1 mod_pos_pos_trivial)
  have e2: "m * 100 + dd = dd + m * 100" by simp
  have dd: "dd < 100" using assms(6) by simp
  have 2: "(?n mod 10000) div 100 = m"
    unfolding m1 e2 using assms(5) dd by simp
  have e3: "?n = dd + (y * 100 + m) * 100" by simp
  have 3: "?n mod 100 = dd"
    unfolding e3 using assms(5) dd by (simp only: mod_mult_self1 mod_pos_pos_trivial)
  show ?thesis
    unfolding r parse_yyyymmdd_def Let_def floor_of_int 1 2 3
    using assms(7) by (auto simp: valid_date_def)
qed

lemma row_release_date_update:
  "k \<noteq> ''released_year'' \<Longrightarrow> k \<noteq> ''released_month'' \<Longrightarrow> k \<noteq> ''released_day'' \<Longrightarrow>
     row_release_date (AList.update k c r) = row_release_date r"
  by (simp add: row_release_date_def lookup_def update_conv')

lemma astype_int_Inr: "astype_int c = Inr c' \<Longrightarrow> \<exists>x. c' = Num x"
  by (cases c) (auto split: if_splits)

lemma normalize_count_Num:
  assumes "normalize_count cs = Inr cs'"
  shows "length cs' = length cs \<and> (\<forall>c\<in>set cs'. \<exists>x. c = Num x)"
proof -
  from assms obtain c1 c2 where
    1: "str_replace_comma cs = Inr c1" and 2: "sequence_err (map astype_float c1) = Inr c2"
    and 3: "sequence_err (map astype_int (map fill_cell c2)) = Inr cs'"
    unfolding normalize_count_def and_then_eq_Inr by auto
  from 1 have "length c1 = length cs"
    by (auto simp: str_replace_comma_def split: if_splits)
  moreover from 2 have "length c2 = length c1" by (rule sequence_err_map_length)
  moreover from 3 have l: "length cs' = length c2"
    using sequence_err_map_length [of astype_int "map fill_cell c2" cs'] by simp
  ultimately have len: "length cs' = length cs" by simp
  have "\<exists>x. c = Num x" if "c \<in> set cs'" for c
  proof -
    from that obtain i where i: "i < length cs'" "cs' ! i = c" by (auto simp: in_set_conv_nth)
    with l have "astype_int (map fill_cell c2 ! i) = Inr (cs' ! i)"
      using sequence_err_map_nth [OF 3, of i] by simp
    with i show ?thesis using astype_int_Inr by blast
  qed
  with len show ?thesis by blast
qed

lemma first_run_rows:
  assumes "feature_deriver now d = Inr d'"
  shows "\<forall>r\<in>set d'. (\<exists>c. row_release_date r = Inr c) \<and>
           (\<exists>x. map_of r ''in_deezer_playlists'' = Some (Num x))"
proof -
  from assms obtain d1 d2 d3 d4 d5 where
    s1: "add_release_date d = Inr d1" and s2: "add_days_since_release now d1 = Inr d2"
    and s3: "normalize_column ''in_deezer_playlists'' d2 = Inr d3"
    and s4: "normalize_column ''in_shazam_charts'' d3 = Inr d4"
    and s5: "streams_to_numeric d4 = Inr d5" and d': "d' = dropna_streams d5"
    unfolding feature_deriver_def and_then_eq_Inr by auto
  let ?A = "\<lambda>r. \<exists>c. row_release_date r = Inr c"
  let ?B = "\<lambda>r. \<exists>x. map_of r ''in_deezer_playlists'' = Some (Num x)"
  from add_release_date_Inr [OF s1] obtain dates where
    dt: "length dates = length d" "d1 = setitem ''release_date'' dates d"
    "\<forall>i<length d. row_release_date (d ! i) = Inr (dates ! i)" by blast
  have a0: "?A r" if "r \<in> set d" for r
    using that dt(3) by (auto simp: in_set_conv_nth)
  have a1: "\<forall>r\<in>set d1. ?A r"
    unfolding dt(2) by (rule setitem_preserves) (simp_all add: a0 row_release_date_update)
  from s2 obtain cs2 where d2: "d2 = setitem ''days_since_release'' cs2 d1"
    unfolding add_days_since_release_def and_then_eq_Inr by auto
  have a2: "\<forall>r\<in>set d2. ?A r"
    unfolding d2 by (rule setitem_preserves) (use a1 in \<open>simp_all add: row_release_date_update\<close>)
  from s3 obtain cs3 cs3' where d3: "d3 = setitem ''in_deezer_playlists'' cs3' d2"
    and n3: "normalize_count cs3 = Inr cs3'"
    unfolding normalize_column_def and_then_eq_Inr by auto
  have num3: "\<forall>c\<in>set cs3'. \<exists>x. c = Num x" using normalize_count_Num [OF n3] by simp
  have a3: "\<forall>r\<in>set d3. ?A r \<and> ?B r"
    unfolding d3
  proof (rule ballI)
    fix r' assume "r' \<in> set (setitem ''in_deezer_playlists'' cs3' d2)"
    then obtain r c where "r \<in> set d2" "c \<in> set cs3'"
      and r': "r' = AList.update ''in_deezer_playlists'' c r"
      using setitem_rows by blast
    then show "?A r' \<and> ?B r'" using a2 num3
      by (auto simp: row_release_date_update update_conv')
  qed
  from s4 obtain cs4 where d4: "d4 = setitem ''in_shazam_charts'' cs4 d3"
    unfolding normalize_column_def and_then_eq_Inr by auto
  have a4: "\<forall>r\<in>set d4. ?A r \<and> ?B r"
    unfolding d4 by (rule setitem_preserves)
      (use a3 in \<open>simp_all add: row_release_date_update update_conv'\<close>)
  from s5 obtain cs5 where d5: "d5 = setitem ''streams'' cs5 d4"
    unfolding streams_to_numeric_def and_then_eq_Inr by auto
  have a5: "\<forall>r\<in>set d5. ?A r \<and> ?B r"
    unfolding d5 by (rule setitem_preserves)
      (use a4 in \<open>simp_all add: row_release_date_update update_conv'\<close>)
  then show ?thesis unfolding d' dropna_streams_def by simp
qed

lemma getitem_total:
  assumes "\<And>r. r \<in> set d \<Longrightarrow> \<exists>c. map_of r k = Some c \<and> Q c"
  shows "\<exists>cs. getitem k d = Inr cs \<and> length cs = length d \<and> (\<forall>c\<in>set cs. Q c)"
proof -
  have "getitem k d = Inr (map (\<lambda>r. the (map_of r k)) d)"
    by (rule getitem_map) (use assms in force)
  moreover have "\<forall>c\<in>set (map (\<lambda>r. the (map_of r k)) d). Q c"
    using assms by force
  ultimately show ?thesis by (intro exI [of _ "map (\<lambda>r. the (map_of r k)) d"]) simp
qed

lemma second_run:
  assumes ne: "d \<noteq> []"
    and rows: "\<forall>r\<in>set d. (\<exists>c. row_release_date r = Inr c) \<and>
                 (\<exists>x. map_of r ''in_deezer_playlists'' = Some (Num x))"
  shows "feature_deriver now d = Inl AttributeError"
proof -
  let ?B = "\<lambda>r. \<exists>x. map_of r ''in_deezer_playlists'' = Some (Num x)"
  from add_release_date_total [of d] rows obtain dates where
    dl: "length dates = length d" and s1: "add_release_date d = Inr (setitem ''release_date'' dates d)"
    by blast
  define d1 where "d1 = setitem ''release_date'' dates d"
  have l1: "length d1 = length d" unfolding d1_def using dl by (rule setitem_length)
  have b1: "\<forall>r\<in>set d1. ?B r"
    unfolding d1_def by (rule setitem_preserves) (use rows in \<open>simp_all add: update_conv'\<close>)
  have g1: "getitem ''release_date'' d1 = Inr dates"
    unfolding d1_def using dl by (rule getitem_setitem)
  define d2 where "d2 = setitem ''days_since_release'' (map (days_since now) dates) d1"
  have s2: "add_days_since_release now d1 = Inr d2"
    by (simp add: add_days_since_release_def g1 d2_def)
  have l2: "length d2 = length d" unfolding d2_def using dl l1 by (simp add: setitem_length)
  have b2: "\<forall>r\<in>set d2. ?B r"
    unfolding d2_def by (rule setitem_preserves) (use b1 in \<open>simp_all add: update_conv'\<close>)
  have "\<exists>c. map_of r ''in_deezer_playlists'' = Some c \<and> (\<exists>x. c = Num x)"
    if "r \<in> set d2" for r using b2 that by blast
  from getitem_total [of d2 "''in_deezer_playlists''" "\<lambda>c. \<exists>x. c = Num x", OF this]
  obtain cs where g2: "getitem ''in_deezer_playlists'' d2 = Inr cs"
    and lc: "length cs = length d2" and nc: "\<forall>c\<in>set cs. \<exists>x. c = Num x" by blast
  have "cs \<noteq> []" using lc l2 ne by auto
  moreover have "\<not> list_ex is_Str cs" using nc by (auto simp: list_ex_iff)
  ultimately have "str_replace_comma cs = Inl AttributeError"
    by (simp add: str_replace_comma_def)
  then have "normalize_column ''in_deezer_playlists'' d2 = Inl AttributeError"
    by (simp add: normalize_column_def g2 normalize_count_def)
  then show ?thesis
    by (simp add: feature_deriver_def s1 d1_def [symmetric] s2)
qed

lemmas eval_defs = feature_deriver_def add_release_date_def add_days_since_release_def
  getitem_def setitem_def to_datetime_def assemble_def parse_yyyymmdd_def days_in_month_def
  is_leap_def days_from_civil_def Let_def normalize_column_def normalize_count_def
  str_replace_comma_def parse_number_def strip_def is_space_def parse_unsigned_def is_digit_def
  digits_value_def fill_cell_def trunc_toward_zero_def streams_to_numeric_def dropna_streams_def
  record_cleaner_def drop_duplicates_def fillna0_def fill_row_def ex_row_def

text \<open>
  C1, as stated: a record whose date cannot be constructed is excluded or flagged and the
  run completes. It fails on a table with a row dated 2023-02-31: \<^verbatim>\<open>pd.to_datetime\<close> is
  called with its default \<^verbatim>\<open>errors='raise'\<close>, the feature engineering raises ValueError and
  the run ends with it.
\<close>

theorem invalid_date_counterexample:
  "feature_deriver 0 (record_cleaner [ex_row ''12'' ''100'' 28, ex_row ''45'' ''200'' 31])
     = Inl ValueError \<and>
   pipeline ex_library 0 [ex_row ''12'' ''100'' 28, ex_row ''45'' ''200'' 31] = Inl ValueError"
  by (simp add: pipeline_def eval_defs)

text \<open>
  C1, amended: when the cleaned table has a record whose year (four digits), month and
  day (at most two digits each) do not name a day of the calendar, for instance a day out
  of range for the month, the feature-derivation stage raises an error and the whole run
  ends with that error; no record is excluded or flagged.
\<close>

theorem invalid_date_aborts:
  assumes "r \<in> set (record_cleaner d)"
    and "map_of r ''released_year'' = Some (Num (of_int y))"
    and "map_of r ''released_month'' = Some (Num (of_int m))"
    and "map_of r ''released_day'' = Some (Num (of_int dd))"
    and "1000 \<le> y" "y \<le> 9999" "0 \<le> m" "m \<le> 99" "0 \<le> dd" "dd \<le> 99"
    and "\<not> valid_date y m dd"
  shows "\<exists>e. feature_deriver now (record_cleaner d) = Inl e \<and> pipeline L now d = Inl e"
proof -
  have bad: "row_release_date r = Inl ValueError"
    using assms(2-4) parse_invalid [OF assms(5-11)]
    by (simp add: row_release_date_def lookup_def assemble_def)
  obtain e where e: "add_release_date (record_cleaner d) = Inl e"
  proof (cases "add_release_date (record_cleaner d)")
    case (Inl e)
    then show ?thesis by (rule that)
  next
    case (Inr d1)
    from add_release_date_Inr [OF Inr] assms(1) have "\<exists>c. row_release_date r = Inr c"
      by (auto simp: in_set_conv_nth)
    with bad show ?thesis by simp
  qed
  then have "feature_deriver now (record_cleaner d) = Inl e"
    by (simp add: feature_deriver_def)
  then show ?thesis by (simp add: pipeline_def)
qed

theorem invalid_date_aborts_witness:
  "ex_row ''45'' ''200'' 31 \<in> set (record_cleaner [ex_row ''12'' ''100'' 28, ex_row ''45'' ''200'' 31]) \<and>
   \<not> valid_date 2023 2 31 \<and>
   (\<exists>e. feature_deriver 0 (record_cleaner [ex_row ''12'' ''100'' 28, ex_row ''45'' ''200'' 31]) = Inl e \<and>
        pipeline ex_library 0 [ex_row ''12'' ''100'' 28, ex_row ''45'' ''200'' 31] = Inl e)"
proof -
  let ?d = "[ex_row ''12'' ''100'' 28, ex_row ''45'' ''200'' 31]"
  have h1: "ex_row ''45'' ''200'' 31 \<in> set (record_cleaner ?d)"
    by (simp add: eval_defs)
  have h2: "map_of (ex_row ''45'' ''200'' 31) ''released_year'' = Some (Num (of_int 2023))"
    "map_of (ex_row ''45'' ''200'' 31) ''released_month'' = Some (Num (of_int 2))"
    "map_of (ex_row ''45'' ''200'' 31) ''released_day'' = Some (Num (of_int 31))"
    by (simp_all add: ex_row_def)
  have h3: "\<not> valid_date 2023 2 31"
    by (simp add: valid_date_def days_in_month_def is_leap_def)
  from invalid_date_aborts [OF h1 h2 _ _ _ _ _ _ h3, of 0 ex_library] h1 h3
  show ?thesis by simp
qed




text \<open>
  C9: the feature engineering cannot be applied to its own output. When a first run has
  returned a table (with at least one row), the two count columns hold numbers, and a
  second run raises AttributeError at the \<^verbatim>\<open>.str\<close> accessor of line 92 instead of leaving
  the table as it is.
\<close>

theorem derive_twice_raises:
  "feature_deriver now d = Inr d' \<Longrightarrow> d' \<noteq> [] \<Longrightarrow> feature_deriver now' d' = Inl AttributeError"
  using first_run_rows second_run by blast

theorem derive_twice_raises_witness:
  "feature_deriver 1700000000 [ex_row ''1,234'' ''100'' 28, ex_row ''7'' ''BPM'' 27] =
     Inr [[(''track_name'', Str ''Song''), (''released_year'', Num 2023),
           (''released_month'', Num 2), (''released_day'', Num 28),
           (''in_deezer_playlists'', Num 1234), (''in_shazam_charts'', Num 1021),
           (''streams'', Num 100), (''release_date'', Date 19416),
           (''days_since_release'', Num 259)]] \<and>
   feature_deriver 1700000000
       [[(''track_name'', Str ''Song''), (''released_year'', Num 2023),
         (''released_month'', Num 2), (''released_day'', Num 28),
         (''in_deezer_playlists'', Num 1234), (''in_shazam_charts'', Num 1021),
         (''streams'', Num 100), (''release_date'', Date 19416),
         (''days_since_release'', Num 259)]] = Inl AttributeError"
proof -
  have h1: "feature_deriver 1700000000 [ex_row ''1,234'' ''100'' 28, ex_row ''7'' ''BPM'' 27] =
     Inr [[(''track_name'', Str ''Song''), (''released_year'', Num 2023),
           (''released_month'', Num 2), (''released_day'', Num 28),
           (''in_deezer_playlists'', Num 1234), (''in_shazam_charts'', Num 1021),
           (''streams'', Num 100), (''release_date'', Date 19416),
           (''days_since_release'', Num 259)]]"
    by (simp add: eval_defs)
  from derive_twice_raises [OF h1, of 1700000000] h1 show ?thesis by simp
qed

section \<open>Properties of the anomaly detection\<close>

lemma length_filter_insort:
  "length (filter P (insort x xs)) = length (filter P (x # xs))"
  by (induction xs) auto

lemma length_filter_sort: "length (filter P (sort xs)) = length (filter P xs)"
  by (induction xs) (simp_all add: length_filter_insort)

lemma percentile5_count:
  assumes "xs \<noteq> []"
  shows "length (filter (\<lambda>x. x < percentile5 xs) xs) \<le> nat \<lfloor>(real (length xs) - 1) / 20\<rfloor> + 1"
proof -
  define s where "s = sort xs"
  define n where "n = length xs"
  define h where "h = (real n - 1) / 20"
  define lo where "lo = nat \<lfloor>h\<rfloor>"
  define hi where "hi = min (lo + 1) (n - 1)"
  define v where "v = s ! lo + (s ! hi - s ! lo) * (h - real lo)"
  have v: "percentile5 xs = v"
    by (simp add: percentile5_def Let_def v_def hi_def lo_def h_def n_def s_def)
  have n1: "1 \<le> n" using assms by (simp add: n_def Suc_le_eq)
  have ls: "length s = n" by (simp add: s_def n_def)
  have srt: "sorted s" by (simp add: s_def)
  have h0: "0 \<le> h" using n1 by (simp add: h_def)
  have hn: "h \<le> real n - 1" using n1 by (simp add: h_def)
  have lo_le: "real lo \<le> h" using h0 by (simp add: lo_def)
  have lo_gt: "h < real lo + 1" using h0 by (simp add: lo_def)
  have "real lo \<le> real n - 1" using lo_le hn by linarith
  then have lo_n: "lo \<le> n - 1" using n1 by linarith
  have hi_n: "hi < n" using n1 by (simp add: hi_def)
  have lo_hi: "lo \<le> hi" using lo_n by (simp add: hi_def)
  have "s ! lo \<le> s ! hi" using srt lo_hi hi_n ls by (simp add: sorted_nth_mono)
  then have "(s ! hi - s ! lo) * (h - real lo) \<le> (s ! hi - s ! lo) * 1"
    using lo_gt by (intro mult_left_mono) simp_all
  then have v_le: "v \<le> s ! hi" by (simp add: v_def)
  have "filter (\<lambda>x. x < v) (drop hi s) = []"
  proof -
    have "\<not> x < v" if "x \<in> set (drop hi s)" for x
    proof -
      from that obtain k where "k < length (drop hi s)" "x = drop hi s ! k"
        by (auto simp: in_set_conv_nth)
      then have "x = s ! (hi + k)" "hi + k < n" using ls by simp_all
      then have "s ! hi \<le> x" using srt ls by (simp add: sorted_nth_mono)
      with v_le show ?thesis by simp
    qed
    then show ?thesis by (simp add: filter_empty_conv)
  qed
  then have "filter (\<lambda>x. x < v) s = filter (\<lambda>x. x < v) (take hi s)"
    using filter_append [of "\<lambda>x. x < v" "take hi s" "drop hi s"] by simp
  then have "length (filter (\<lambda>x. x < v) s) \<le> hi"
    using length_filter_le [of "\<lambda>x. x < v" "take hi s"] by simp
  moreover have "length (filter (\<lambda>x. x < v) xs) = length (filter (\<lambda>x. x < v) s)"
    by (simp add: s_def length_filter_sort)
  moreover have "hi \<le> lo + 1" by (simp add: hi_def)
  ultimately show ?thesis unfolding v lo_def h_def n_def by simp
qed


lemma select_columns_length: "select_columns ks d = Inr cs \<Longrightarrow> length cs = length d"
  unfolding select_columns_def
  by (auto split: option.splits simp: those_map_Some_iff dest: arg_cong [where f = length])

lemma as_matrix_length: "as_matrix cs = Inr X \<Longrightarrow> length X = length cs"
  unfolding as_matrix_def by (rule sequence_err_map_length)

lemma filter_setitem:
  "length d = length cs \<Longrightarrow>
     filter (\<lambda>r. map_of r k = Some v) (setitem k cs d) =
       map (AList.update k v) (map fst (filter (\<lambda>(r, c). c = v) (zip d cs)))"
  by (induction d cs rule: list_induct2) (auto simp: setitem_def update_conv')

lemma subseq_filter_zip:
  "length d = length cs \<Longrightarrow> subseq (map fst (filter P (zip d cs))) d"
  by (induction d cs rule: list_induct2) auto

lemma length_filter_zip:
  "length d = length cs \<Longrightarrow>
     length (filter (\<lambda>(r, c). Q c) (zip d cs)) = length (filter Q cs)"
  by (induction d cs rule: list_induct2) auto

lemma fit_predict_Inr:
  assumes "fit_predict L X = Inr an"
  shows "length an = length X \<and>
     length X - length (filter (\<lambda>a. a = 1) an) \<le> nat \<lfloor>(real (length X) - 1) / 20\<rfloor> + 1"
proof -
  define scores where "scores = map (iso_score L X) X"
  define off where "off = percentile5 scores"
  from assms have ne: "X \<noteq> []" and an: "an = map (\<lambda>s. if s - off < 0 then - 1 else 1) scores"
    by (auto simp: fit_predict_def Let_def scores_def off_def split: if_splits)
  have ls: "length scores = length X" by (simp add: scores_def)
  have "length (filter (\<lambda>a. a = 1) an) = length (filter (\<lambda>s. \<not> s < off) scores)"
    unfolding an by (simp add: filter_map comp_def)
  moreover have "length (filter (\<lambda>s. s < off) scores) + length (filter (\<lambda>s. \<not> s < off) scores)
      = length scores"
    by (rule sum_length_filter_compl)
  moreover have "length (filter (\<lambda>s. s < off) scores) \<le> nat \<lfloor>(real (length scores) - 1) / 20\<rfloor> + 1"
    unfolding off_def by (rule percentile5_count) (use ne in \<open>simp add: scores_def\<close>)
  ultimately show ?thesis using ls an by simp
qed

lemma fit_predict_labels:
  assumes "fit_predict L X = Inr an"
  shows "an = map (\<lambda>x. if iso_score L X x < percentile5 (map (iso_score L X) X) then - 1 else 1) X"
  using assms by (auto simp: fit_predict_def Let_def comp_def split: if_splits)

lemma kept_rows:
  "length d = length X \<Longrightarrow>
     map fst (filter (\<lambda>(r, c). c = Num 1) (zip d (map Num (map (\<lambda>x. if g x then - 1 else 1) X)))) =
     map fst (filter (\<lambda>(r, x). \<not> g x) (zip d X))"
  by (induction d X rule: list_induct2) auto

text \<open>
  C6, as stated: the filtered dataset is a strict subset of the rows of its input, and no
  row is modified. It fails on two rows with the same features: both get the same score,
  none lies below the percentile, and both rows come back, each with the label 1 written
  into the added column \<^verbatim>\<open>anomaly\<close>.
\<close>

theorem outlier_filter_counterexample:
  "outlier_filter ex_library [ex_song 1 10, ex_song 1 20] =
     Inr [AList.update ''anomaly'' (Num 1) (ex_song 1 10),
          AList.update ''anomaly'' (Num 1) (ex_song 1 20)] \<and>
   AList.update ''anomaly'' (Num 1) (ex_song 1 10) \<noteq> ex_song 1 10"
  by (simp add: outlier_filter_def select_columns_def numeric_features_def as_matrix_def
      fit_predict_def percentile5_def setitem_def ex_library_def ex_song_def Let_def)

text \<open>
  C6, amended: for the fixed seed and a fixed input, the outlier filter removes exactly
  the rows whose score lies below the 5th percentile of the scores; these are at most 5%
  of the rows plus one row, and possibly none. The rows it returns are rows of its
  input, in their order, each with the label 1 written into the column \<^verbatim>\<open>anomaly\<close> and
  every other cell unchanged; no row is added.
\<close>

theorem outlier_filter_conservation:
  assumes "outlier_filter L d = Inr d'"
  shows "\<exists>X kept.
     and_then (select_columns numeric_features d) as_matrix = Inr X \<and> length X = length d \<and>
     kept = map fst (filter (\<lambda>(r, x). \<not> iso_score L X x < percentile5 (map (iso_score L X) X))
                       (zip d X)) \<and>
     subseq kept d \<and>
     d' = map (AList.update ''anomaly'' (Num 1)) kept \<and>
     real (length d - length d') \<le> 0.05 * real (length d) + 1"
proof -
  from assms obtain cs X an where c: "select_columns numeric_features d = Inr cs"
    and x: "as_matrix cs = Inr X" and f: "fit_predict L X = Inr an"
    and d': "d' = filter (\<lambda>r. map_of r ''anomaly'' = Some (Num 1))
                   (setitem ''anomaly'' (map Num an) d)"
    unfolding outlier_filter_def and_then_eq_Inr by auto
  have cx: "and_then (select_columns numeric_features d) as_matrix = Inr X"
    by (simp add: c x)
  have lx: "length X = length d"
    using select_columns_length [OF c] as_matrix_length [OF x] by simp
  from fit_predict_Inr [OF f] have la: "length an = length d"
    and cnt: "length d - length (filter (\<lambda>a. a = 1) an) \<le> nat \<lfloor>(real (length d) - 1) / 20\<rfloor> + 1"
    using lx by simp_all
  define kept where "kept = map fst (filter (\<lambda>(r, c). c = Num 1) (zip d (map Num an)))"
  have kx: "kept = map fst (filter (\<lambda>(r, x). \<not> iso_score L X x < percentile5 (map (iso_score L X) X))
                       (zip d X))"
    unfolding kept_def fit_predict_labels [OF f] by (rule kept_rows) (simp add: lx)
  have k: "d' = map (AList.update ''anomaly'' (Num 1)) kept"
    unfolding d' kept_def using la by (simp add: filter_setitem)
  have s: "subseq kept d" unfolding kept_def using la by (simp add: subseq_filter_zip)
  have "length d' = length (filter (\<lambda>c. c = Num 1) (map Num an))"
    unfolding k kept_def using la by (simp add: length_filter_zip)
  also have "\<dots> = length (filter (\<lambda>a. a = 1) an)"
    by (simp add: filter_map comp_def)
  finally have "length d - length d' \<le> nat \<lfloor>(real (length d) - 1) / 20\<rfloor> + 1"
    using cnt by simp
  then have "real (length d - length d') \<le> real (nat \<lfloor>(real (length d) - 1) / 20\<rfloor>) + 1"
    by linarith
  also have "\<dots> \<le> 0.05 * real (length d) + 1"
  proof (cases "length d")
    case 0
    then show ?thesis by simp
  next
    case (Suc m)
    then have "0 \<le> (real (length d) - 1) / 20" by simp
    then have "real (nat \<lfloor>(real (length d) - 1) / 20\<rfloor>) = of_int \<lfloor>(real (length d) - 1) / 20\<rfloor>"
      by simp
    also have "\<dots> \<le> (real (length d) - 1) / 20" by (rule of_int_floor_le)
    finally show ?thesis by simp
  qed
  finally have b: "real (length d - length d') \<le> 0.05 * real (length d) + 1" .
  show ?thesis
    by (rule exI [of _ X], rule exI [of _ kept]) (simp only: cx lx kx [symmetric] s k [symmetric] b simp_thms)
qed

theorem outlier_filter_conservation_witness:
  "outlier_filter ex_library [ex_song 1 10, ex_song 3 20] =
     Inr [AList.update ''anomaly'' (Num 1) (ex_song 3 20)] \<and>
   real (length [ex_song 1 10, ex_song 3 20] -
         length [AList.update ''anomaly'' (Num 1) (ex_song 3 20)])
     \<le> 0.05 * real (length [ex_song 1 10, ex_song 3 20]) + 1 \<and>
   (\<exists>kept. subseq kept [ex_song 1 10, ex_song 3 20] \<and>
      [AList.update ''anomaly'' (Num 1) (ex_song 3 20)] =
        map (AList.update ''anomaly'' (Num 1)) kept)"
proof -
  have h: "outlier_filter ex_library [ex_song 1 10, ex_song 3 20] =
     Inr [AList.update ''anomaly'' (Num 1) (ex_song 3 20)]"
    by (simp add: outlier_filter_def select_columns_def numeric_features_def as_matrix_def
        fit_predict_def percentile5_def setitem_def ex_library_def ex_song_def Let_def)
  from outlier_filter_conservation [OF h] obtain X :: matrix and kept where
    k1: "subseq kept [ex_song 1 10, ex_song 3 20]"
    and k2: "[AList.update ''anomaly'' (Num 1) (ex_song 3 20)] =
               map (AList.update ''anomaly'' (Num 1)) kept"
    and k3: "real (length [ex_song 1 10, ex_song 3 20] -
         length [AList.update ''anomaly'' (Num 1) (ex_song 3 20)])
     \<le> 0.05 * real (length [ex_song 1 10, ex_song 3 20]) + 1"
    by (elim exE conjE) (rule that)
  show ?thesis
    using h k1 k2 k3 by (intro conjI exI [of _ kept]) assumption+
qed

section \<open>Properties of the modelling cells\<close>

lemma train_test_split_Inr:
  assumes "train_test_split L X y = Inr s"
  shows "length y = length X" "0 < length X - (length X + 4) div 5"
    "X_train s = take_rows X (take (length X - (length X + 4) div 5)
                   (drop ((length X + 4) div 5) (permutation42 L (length X))))"
    "X_test s = take_rows X (take ((length X + 4) div 5) (permutation42 L (length X)))"
    "y_train s = take_rows y (take (length X - (length X + 4) div 5)
                   (drop ((length X + 4) div 5) (permutation42 L (length X))))"
    "y_test s = take_rows y (take ((length X + 4) div 5) (permutation42 L (length X)))"
  using assms by (auto simp: train_test_split_def Let_def split: if_splits)

lemma train_test_split_total:
  assumes "length y = length X" "2 \<le> length X"
  shows "\<exists>s. train_test_split L X y = Inr s"
proof -
  have "0 < length X - (length X + 4) div 5" using assms(2) by linarith
  then show ?thesis using assms(1) by (simp add: train_test_split_def Let_def)
qed

lemma train_length:
  assumes "train_test_split L X y = Inr s" "length (permutation42 L (length X)) = length X"
  shows "length (X_train s) = length X - (length X + 4) div 5"
    "length (y_train s) = length X - (length X + 4) div 5"
  using train_test_split_Inr(3,5) [OF assms(1)] assms(2) by (simp_all add: take_rows_def)

lemma scaler_transform_length: "length (scaler_transform sc X) = length X"
  by (simp add: scaler_transform_def)

lemma kfold_total: "5 \<le> n \<Longrightarrow> \<exists>folds. kfold n = Inr folds"
  by (simp add: kfold_def)

lemma cross_val_score_total:
  "5 \<le> length X \<Longrightarrow> \<exists>scores. cross_val_score metric fit X y = Inr scores"
  by (simp add: cross_val_score_def kfold_def)

lemma cross_val_score_Inr:
  assumes "cross_val_score metric fit X y = Inr scores"
  shows "\<exists>folds. kfold (length X) = Inr folds \<and>
           scores = map (\<lambda>f. - fold_score metric fit X y f) folds"
  using assms by (auto simp: cross_val_score_def and_then_def split: sum.splits)

lemma param_grid_not_Nil: "param_grid \<noteq> []"
  by (simp add: param_grid_def)

lemma grid_search_total:
  assumes "5 \<le> length X"
  shows "\<exists>best. grid_search L X y = Inr best"
proof -
  define g where "g p = (p, mean (projr (cross_val_score mean_squared_error (mlp_regressor L p) X y)))"
    for p
  have "sequence_err (map (\<lambda>p. and_then (cross_val_score mean_squared_error (mlp_regressor L p) X y)
                                (\<lambda>scores. Inr (p, mean scores))) param_grid) = Inr (map g param_grid)"
  proof (rule sequence_err_map_Inr)
    fix p
    from cross_val_score_total [OF assms] obtain sc where
      "cross_val_score mean_squared_error (mlp_regressor L p) X y = Inr sc" by blast
    then show "and_then (cross_val_score mean_squared_error (mlp_regressor L p) X y)
                 (\<lambda>scores. Inr (p, mean scores)) = Inr (g p)"
      by (simp add: g_def)
  qed
  moreover obtain c cs where "map g param_grid = c # cs"
    using param_grid_not_Nil by (cases "map g param_grid") auto
  ultimately show ?thesis by (simp add: grid_search_def)
qed

lemma model_stage_Inr:
  assumes "model_stage L X y = Inr out"
  shows "\<exists>s best lin_scores nn_scores.
     train_test_split L X y = Inr s \<and>
     grid_search L (scaler_transform (scaler_fit (X_train s)) (X_train s)) (y_train s) = Inr best \<and>
     cross_val_score root_mean_squared_error (linear_regression L)
        (scaler_transform (scaler_fit (X_train s)) X) y = Inr lin_scores \<and>
     cross_val_score root_mean_squared_error (mlp_regressor L best)
        (scaler_transform (scaler_fit (X_train s)) X) y = Inr nn_scores \<and>
     calls out = linear_calls L s @ nn_calls L (scaler_fit (X_train s)) best s @ xgb_calls L s @
        [ScalerTransform X, CrossVal Linear (scaler_transform (scaler_fit (X_train s)) X) y,
         CrossVal NeuralNet (scaler_transform (scaler_fit (X_train s)) X) y, CrossVal XGBoost X y] \<and>
     cross_val_score_lin_reg out = mean (map uminus lin_scores) \<and>
     cross_val_score_nn out = mean (map uminus nn_scores) \<and>
     cross_val_score_xgboost out = frame_mean (xgb_cv L X y 100) ! 2"
  using assms unfolding model_stage_def and_then_eq_Inr Let_def by auto

lemma model_stage_total:
  assumes "length y = length X" "7 \<le> length X"
    and "length (permutation42 L (length X)) = length X"
  shows "\<exists>out. model_stage L X y = Inr out"
proof -
  from train_test_split_total [of y X L] assms obtain s where
    s: "train_test_split L X y = Inr s" by auto
  have "5 \<le> length X - (length X + 4) div 5" using assms(2) by linarith
  then have l: "5 \<le> length (scaler_transform (scaler_fit (X_train s)) (X_train s))"
    using train_length(1) [OF s assms(3)] by (simp add: scaler_transform_length)
  from grid_search_total [OF l] obtain best where
    b: "grid_search L (scaler_transform (scaler_fit (X_train s)) (X_train s)) (y_train s) = Inr best"
    by blast
  have lx: "5 \<le> length (scaler_transform (scaler_fit (X_train s)) X)"
    using assms(2) by (simp add: scaler_transform_length)
  from cross_val_score_total [OF lx] obtain ls where
    c1: "cross_val_score root_mean_squared_error (linear_regression L)
           (scaler_transform (scaler_fit (X_train s)) X) y = Inr ls" by blast
  from cross_val_score_total [OF lx] obtain ns where
    c2: "cross_val_score root_mean_squared_error (mlp_regressor L best)
           (scaler_transform (scaler_fit (X_train s)) X) y = Inr ns" by blast
  show ?thesis by (simp add: model_stage_def s b c1 c2 Let_def)
qed

text \<open>The run continues into the modelling cells with the matrix and target of line 195.\<close>

lemma pipeline_model_stage:
  "pipeline L now d = Inr out \<Longrightarrow> \<exists>X y. model_stage L X y = Inr out"
  unfolding pipeline_def and_then_eq_Inr by blast

lemmas call_readings = fit_inputs_def predict_inputs_def score_targets_def scores_of_def
  crossval_inputs_def linear_calls_def nn_calls_def xgb_calls_def Let_def

lemma ex_split_eq: "train_test_split ex_library ex_X ex_y = Inr ex_split"
  by (simp add: train_test_split_def ex_library_def ex_X_def ex_y_def ex_split_def Let_def
      take_rows_def upt_rec)

lemma ex_run_calls:
  "\<exists>best. run_calls (model_stage ex_library ex_X ex_y) =
     linear_calls ex_library ex_split @
     nn_calls ex_library (scaler_fit (X_train ex_split)) best ex_split @
     xgb_calls ex_library ex_split @
     [ScalerTransform ex_X,
      CrossVal Linear (scaler_transform (scaler_fit (X_train ex_split)) ex_X) ex_y,
      CrossVal NeuralNet (scaler_transform (scaler_fit (X_train ex_split)) ex_X) ex_y,
      CrossVal XGBoost ex_X ex_y]"
proof -
  have "\<exists>out. model_stage ex_library ex_X ex_y = Inr out"
    by (rule model_stage_total) (simp_all add: ex_X_def ex_y_def ex_library_def)
  then obtain out where o: "model_stage ex_library ex_X ex_y = Inr out" by blast
  from model_stage_Inr [OF o] show ?thesis
    by (auto simp: o run_calls_def ex_split_eq)
qed






text \<open>
  The metrics each modelling cell computes, from that model's predictions for the test
  split: four for the linear model, two for the neural network, one for the boosted trees.
\<close>

lemma metrics_computed:
  assumes "model_stage L X y = Inr out"
  shows "\<exists>s best. train_test_split L X y = Inr s \<and>
     grid_search L (scaler_transform (scaler_fit (X_train s)) (X_train s)) (y_train s) = Inr best \<and>
     (let sc = scaler_fit (X_train s);
          Xtr = scaler_transform sc (X_train s);
          Xte = scaler_transform sc (X_test s);
          lin = map (linear_regression L Xtr (y_train s)) Xte;
          nn = map (mlp_regressor L best Xtr (y_train s)) Xte;
          xg = map (xgb_booster L 100 (X_train s) (y_train s)) (X_test s)
      in scores_of Linear (calls out) =
           [(MSE, lin, mean_squared_error (y_test s) lin),
            (RMSE, lin, root_mean_squared_error (y_test s) lin),
            (MAE, lin, mean_absolute_error (y_test s) lin),
            (R2, lin, r2_score (y_test s) lin)] \<and>
         scores_of NeuralNet (calls out) =
           [(MSE, nn, mean_squared_error (y_test s) nn), (R2, nn, r2_score (y_test s) nn)] \<and>
         scores_of XGBoost (calls out) = [(R2, xg, r2_score (y_test s) xg)])"
proof -
  from model_stage_Inr [OF assms] obtain s best where
    s: "train_test_split L X y = Inr s"
    and b: "grid_search L (scaler_transform (scaler_fit (X_train s)) (X_train s)) (y_train s) = Inr best"
    and c: "calls out = linear_calls L s @ nn_calls L (scaler_fit (X_train s)) best s @
        xgb_calls L s @
        [ScalerTransform X, CrossVal Linear (scaler_transform (scaler_fit (X_train s)) X) y,
         CrossVal NeuralNet (scaler_transform (scaler_fit (X_train s)) X) y, CrossVal XGBoost X y]"
    by blast
  show ?thesis
    by (rule exI [of _ s], rule exI [of _ best]) (simp add: s b c call_readings)
qed

text \<open>
  C3: every model should get a record of all four metrics MSE, RMSE, MAE and R2, as the
  linear model does. On a run over seven samples the record of the neural network holds
  MSE and R2 only, and that of the boosted trees R2 only.
\<close>

theorem metrics_incomplete:
  "map fst (scores_of XGBoost (run_calls (model_stage ex_library ex_X ex_y))) = [R2] \<and>
   map fst (scores_of NeuralNet (run_calls (model_stage ex_library ex_X ex_y))) = [MSE, R2]"
proof -
  from ex_run_calls obtain best where
    "run_calls (model_stage ex_library ex_X ex_y) =
     linear_calls ex_library ex_split @
     nn_calls ex_library (scaler_fit (X_train ex_split)) best ex_split @
     xgb_calls ex_library ex_split @
     [ScalerTransform ex_X,
      CrossVal Linear (scaler_transform (scaler_fit (X_train ex_split)) ex_X) ex_y,
      CrossVal NeuralNet (scaler_transform (scaler_fit (X_train ex_split)) ex_X) ex_y,
      CrossVal XGBoost ex_X ex_y]" by blast
  then show ?thesis by (simp add: call_readings)
qed

section \<open>Properties of the scaler\<close>

lemma sum_list_affine:
  "sum_list (map (\<lambda>x. (x - m) / s) xs) = (sum_list xs - real (length xs) * m) / (s::real)"
  by (induction xs) (simp_all add: add_divide_distrib [symmetric] algebra_simps)

lemma mean_affine:
  assumes "xs \<noteq> []"
  shows "mean (map (\<lambda>x. (x - m) / s) xs) = (mean xs - m) / s"
  using assms by (simp add: mean_def sum_list_affine field_simps)

lemma sum_list_scaled: "sum_list (map (\<lambda>x. f x / c) xs) = sum_list (map f xs) / (c::real)"
  by (induction xs) (simp_all add: add_divide_distrib)

lemma variance_affine:
  assumes "xs \<noteq> []"
  shows "variance (map (\<lambda>x. (x - m) / s) xs) = variance xs / s\<^sup>2"
proof -
  have "((x - m) / s - (mean xs - m) / s)\<^sup>2 = (x - mean xs)\<^sup>2 / s\<^sup>2" for x
    by (simp add: diff_divide_distrib [symmetric] power_divide)
  then have "variance (map (\<lambda>x. (x - m) / s) xs) = mean (map (\<lambda>x. (x - mean xs)\<^sup>2 / s\<^sup>2) xs)"
    by (simp add: variance_def mean_affine [OF assms] comp_def)
  also have "\<dots> = variance xs / s\<^sup>2"
    by (simp add: variance_def mean_def sum_list_scaled)
  finally show ?thesis .
qed

lemma variance_nonneg: "0 \<le> variance xs"
proof -
  have "0 \<le> sum_list (map (\<lambda>x. (x - mean xs)\<^sup>2) xs)"
    by (rule sum_list_nonneg) auto
  then show ?thesis by (simp add: variance_def mean_def)
qed

lemma columns_rect:
  assumes "M \<noteq> []" "\<forall>r\<in>set M. length r = k"
  shows "columns M = map (\<lambda>j. column j M) [0..<k]"
  using assms by (cases M) (simp_all add: columns_def)

lemma column_transform:
  assumes "\<forall>r\<in>set M. length r = k" "length (fitted_mean sc) = k" "length (fitted_scale sc) = k"
    and "j < k"
  shows "column j (scaler_transform sc M) =
           map (\<lambda>x. (x - fitted_mean sc ! j) / fitted_scale sc ! j) (column j M)"
  using assms by (simp add: column_def scaler_transform_def)

lemma constant_column_flagged: "is_constant_feature 0 mu n"
  by (simp add: is_constant_feature_def)

lemma fit_column:
  assumes "M \<noteq> []" "\<forall>r\<in>set M. length r = k" "j < k"
  shows "fitted_mean (scaler_fit M) ! j = mean (column j M)"
    "fitted_scale (scaler_fit M) ! j =
       (if is_constant_feature (variance (column j M)) (mean (column j M)) (length M) then 1
        else std (column j M))"
    "column j (scaler_transform (scaler_fit M) M) =
       map (\<lambda>x. (x - mean (column j M)) / fitted_scale (scaler_fit M) ! j) (column j M)"
proof -
  have c: "columns M = map (\<lambda>j. column j M) [0..<k]" using assms(1,2) by (rule columns_rect)
  have lc: "length (column j M) = length M" by (simp add: column_def)
  show m: "fitted_mean (scaler_fit M) ! j = mean (column j M)"
    using assms(3) by (simp add: scaler_fit_def c)
  show "fitted_scale (scaler_fit M) ! j =
       (if is_constant_feature (variance (column j M)) (mean (column j M)) (length M) then 1
        else std (column j M))"
    using assms(3) by (simp add: scaler_fit_def c lc)
  have l: "length (fitted_mean (scaler_fit M)) = k" "length (fitted_scale (scaler_fit M)) = k"
    by (simp_all add: scaler_fit_def c)
  show "column j (scaler_transform (scaler_fit M) M) =
       map (\<lambda>x. (x - mean (column j M)) / fitted_scale (scaler_fit M) ! j) (column j M)"
    using column_transform [OF assms(2) l assms(3)] by (simp only: m)
qed

lemma fit_scale_positive:
  assumes "M \<noteq> []" "\<forall>r\<in>set M. length r = k" "j < k"
  shows "0 < fitted_scale (scaler_fit M) ! j"
proof (cases "is_constant_feature (variance (column j M)) (mean (column j M)) (length M)")
  case True
  then show ?thesis by (simp add: fit_column(2) [OF assms])
next
  case False
  then have "variance (column j M) \<noteq> 0" using constant_column_flagged by metis
  then have "0 < variance (column j M)" using variance_nonneg [of "column j M"] by simp
  then show ?thesis using False by (simp add: fit_column(2) [OF assms] std_def)
qed

lemma fit_transform_column:
  assumes "M \<noteq> []" "\<forall>r\<in>set M. length r = k" "j < k"
  shows "mean (column j (scaler_transform (scaler_fit M) M)) = 0"
    "std (column j (scaler_transform (scaler_fit M) M)) =
       (if is_constant_feature (variance (column j M)) (mean (column j M)) (length M)
        then std (column j M) else 1)"
proof -
  let ?c = "column j M"
  let ?s = "fitted_scale (scaler_fit M) ! j"
  have ne: "?c \<noteq> []" using assms(1) by (simp add: column_def)
  note t = fit_column(3) [OF assms]
  show "mean (column j (scaler_transform (scaler_fit M) M)) = 0"
    unfolding t by (simp add: mean_affine [OF ne])
  have v: "variance (column j (scaler_transform (scaler_fit M) M)) = variance ?c / ?s\<^sup>2"
    unfolding t by (rule variance_affine [OF ne])
  show "std (column j (scaler_transform (scaler_fit M) M)) =
       (if is_constant_feature (variance ?c) (mean ?c) (length M) then std ?c else 1)"
  proof (cases "is_constant_feature (variance ?c) (mean ?c) (length M)")
    case True
    then have "?s = 1" by (simp add: fit_column(2) [OF assms])
    then show ?thesis using True by (simp add: std_def v)
  next
    case False
    then have s: "?s = std ?c" by (simp add: fit_column(2) [OF assms])
    have "0 < std ?c" using fit_scale_positive [OF assms] s by simp
    then have "variance ?c / (std ?c)\<^sup>2 = 1"
      using variance_nonneg [of ?c] by (simp add: std_def)
    then show ?thesis using False by (simp add: std_def v s)
  qed
qed

text \<open>
  A column that is constant up to rounding: its two values differ by \<^verbatim>\<open>2^-31\<close> around a
  million, its variance lies below the bound, and its scale is 1.
\<close>

lemma near_constant_column_scale:
  "fitted_scale (scaler_fit [[1000000], [1000000 + 1 / 2 ^ 31]]) = [1]"
  by (simp add: scaler_fit_def columns_def column_def variance_def mean_def
      is_constant_feature_def float_eps_def power_divide power2_eq_square field_simps)




section \<open>Properties of the cross-validation\<close>

lemma split_sizes_concat:
  "length xs \<le> sum_list sizes \<Longrightarrow> concat (split_sizes sizes xs) = xs"
proof (induction sizes arbitrary: xs)
  case Nil
  then show ?case by simp
next
  case (Cons s ss)
  have "length (drop s xs) \<le> sum_list ss" using Cons.prems by simp
  then have "concat (split_sizes ss (drop s xs)) = drop s xs" by (rule Cons.IH)
  then show ?case by simp
qed

lemma split_sizes_length: "length (split_sizes sizes xs) = length sizes"
  by (induction sizes arbitrary: xs) simp_all

lemma fold_sizes_5: "sum_list (fold_sizes n 5) = n"
proof -
  have "[0..<5] = [0, 1, 2, 3, 4]" by (simp add: upt_rec)
  then have "sum_list (fold_sizes n 5) =
      5 * (n div 5) + ((if 0 < n mod 5 then 1 else 0) + (if 1 < n mod 5 then 1 else 0) +
        (if 2 < n mod 5 then 1 else 0) + (if 3 < n mod 5 then 1 else 0) +
        (if 4 < n mod 5 then 1 else 0))"
    by (simp add: fold_sizes_def)
  also have "\<dots> = 5 * (n div 5) + n mod 5"
  proof -
    have "n mod 5 < 5" by simp
    then consider "n mod 5 = 0" | "n mod 5 = 1" | "n mod 5 = 2" | "n mod 5 = 3" | "n mod 5 = 4"
      by linarith
    then show ?thesis by cases simp_all
  qed
  finally show ?thesis by simp
qed

lemma array_split_5: "concat (array_split idx 5) = idx" "length (array_split idx 5) = 5"
proof -
  show "concat (array_split idx 5) = idx"
    unfolding array_split_def by (rule split_sizes_concat) (simp add: fold_sizes_5)
  show "length (array_split idx 5) = 5"
    by (simp add: array_split_def split_sizes_length fold_sizes_def)
qed

lemma kfold_partition:
  assumes "kfold n = Inr folds"
  shows "concat (map snd folds) = [0..<n]" "length folds = 5"
    "\<forall>f\<in>set folds. fst f = filter (\<lambda>i. i \<notin> set (snd f)) [0..<n]"
  using assms by (auto simp: kfold_def comp_def array_split_5 split: if_splits)

lemma xgb_folds_partition:
  "concat (map snd (xgb_folds L n)) = permutation42 L n" "length (xgb_folds L n) = 5"
proof -
  let ?out = "array_split (permutation42 L n) 5"
  have "map snd (xgb_folds L n) = map (\<lambda>k. ?out ! k) [0..<length ?out]"
    by (simp add: xgb_folds_def Let_def comp_def array_split_5)
  then have "map snd (xgb_folds L n) = ?out" by (simp add: map_nth)
  then show "concat (map snd (xgb_folds L n)) = permutation42 L n"
    by (simp add: array_split_5)
  show "length (xgb_folds L n) = 5" by (simp add: xgb_folds_def Let_def)
qed

lemma xgb_folds_cover:
  "is_permutation (permutation42 L n) n \<Longrightarrow> sort (concat (map snd (xgb_folds L n))) = [0..<n]"
  by (simp add: xgb_folds_partition is_permutation_def)

lemma column_2:
  "column 2 (map (\<lambda>r. [a r, b r, c r, d r]) rs) = map c rs"
  by (simp add: column_def)

lemma xgb_cv_mean:
  "frame_mean (xgb_cv L X y (Suc n)) ! 2 =
     mean (map (\<lambda>r. mean (map (fold_score root_mean_squared_error (xgb_booster L r) X y)
                               (xgb_folds L (length X)))) [1..<Suc (Suc n)])"
proof -
  let ?t = "xgb_cv L X y (Suc n)"
  have ne: "?t \<noteq> []" by (simp add: xgb_cv_def)
  have "\<forall>r\<in>set ?t. length r = 4" by (auto simp: xgb_cv_def Let_def)
  with ne have "columns ?t = map (\<lambda>j. column j ?t) [0..<4]" by (rule columns_rect)
  then have "frame_mean ?t ! 2 = mean (column 2 ?t)"
    by (simp add: frame_mean_def numeral_2_eq_2)
  also have "column 2 ?t = map (\<lambda>r. mean (map (fold_score root_mean_squared_error (xgb_booster L r) X y)
                               (xgb_folds L (length X)))) [1..<Suc (Suc n)]"
    unfolding xgb_cv_def Let_def by (rule column_2)
  finally show ?thesis .
qed

text \<open>
  The three comparison values. For the linear and the neural model the value is the mean
  of the five fold scores of an unshuffled 5-fold cross-validation whose test folds cover
  every row once; for the boosted trees the test folds are the blocks of the seeded
  permutation and the value is the mean over the 100 boosting rounds of the fold mean of
  each round.
\<close>

lemma cross_validation_values:
  assumes "model_stage L X y = Inr out"
  shows "\<exists>s best folds.
     train_test_split L X y = Inr s \<and>
     grid_search L (scaler_transform (scaler_fit (X_train s)) (X_train s)) (y_train s) = Inr best \<and>
     kfold (length X) = Inr folds \<and> length folds = 5 \<and>
     concat (map snd folds) = [0..<length X] \<and>
     cross_val_score_lin_reg out =
       mean (map (fold_score root_mean_squared_error (linear_regression L)
                    (scaler_transform (scaler_fit (X_train s)) X) y) folds) \<and>
     cross_val_score_nn out =
       mean (map (fold_score root_mean_squared_error (mlp_regressor L best)
                    (scaler_transform (scaler_fit (X_train s)) X) y) folds) \<and>
     length (xgb_folds L (length X)) = 5 \<and>
     concat (map snd (xgb_folds L (length X))) = permutation42 L (length X) \<and>
     cross_val_score_xgboost out =
       mean (map (\<lambda>r. mean (map (fold_score root_mean_squared_error (xgb_booster L r) X y)
                                 (xgb_folds L (length X)))) [1..<101])"
proof -
  from model_stage_Inr [OF assms] obtain s best lin_scores nn_scores where
    s: "train_test_split L X y = Inr s"
    and b: "grid_search L (scaler_transform (scaler_fit (X_train s)) (X_train s)) (y_train s) = Inr best"
    and l: "cross_val_score root_mean_squared_error (linear_regression L)
        (scaler_transform (scaler_fit (X_train s)) X) y = Inr lin_scores"
    and n: "cross_val_score root_mean_squared_error (mlp_regressor L best)
        (scaler_transform (scaler_fit (X_train s)) X) y = Inr nn_scores"
    and v: "cross_val_score_lin_reg out = mean (map uminus lin_scores)"
      "cross_val_score_nn out = mean (map uminus nn_scores)"
      "cross_val_score_xgboost out = frame_mean (xgb_cv L X y 100) ! 2"
    by blast
  from cross_val_score_Inr [OF l] obtain folds where
    k: "kfold (length X) = Inr folds"
    and ls: "lin_scores = map (\<lambda>f. - fold_score root_mean_squared_error (linear_regression L)
        (scaler_transform (scaler_fit (X_train s)) X) y f) folds"
    by (auto simp: scaler_transform_length)
  from cross_val_score_Inr [OF n] k have
    ns: "nn_scores = map (\<lambda>f. - fold_score root_mean_squared_error (mlp_regressor L best)
        (scaler_transform (scaler_fit (X_train s)) X) y f) folds"
    by (auto simp: scaler_transform_length)
  have x: "cross_val_score_xgboost out =
       mean (map (\<lambda>r. mean (map (fold_score root_mean_squared_error (xgb_booster L r) X y)
                                 (xgb_folds L (length X)))) [1..<101])"
    using xgb_cv_mean [of L X y 99] v(3) by simp
  show ?thesis
    apply (rule exI [of _ s], rule exI [of _ best], rule exI [of _ folds])
    using k kfold_partition(1,2) [OF k] xgb_folds_partition [of L "length X"] x
    by (simp add: s b v ls ns comp_def)
qed

lemma sum_real_upt: "sum_list (map real [1..<Suc n]) = real n * (real n + 1) / 2"
  by (induction n) (simp_all add: field_simps)

lemma rmse_zero_const:
  "0 < k \<Longrightarrow> root_mean_squared_error (replicate k 0) (replicate k c) = \<bar>c\<bar>"
  by (simp add: root_mean_squared_error_def mean_squared_error_def mean_def zip_replicate
      sum_list_replicate)

lemma ex_xgb_folds:
  "xgb_folds ex_library 7 =
     [([2, 3, 4, 5, 6], [0, 1]), ([0, 1, 4, 5, 6], [2, 3]), ([0, 1, 2, 3, 5, 6], [4]),
      ([0, 1, 2, 3, 4, 6], [5]), ([0, 1, 2, 3, 4, 5], [6])]"
  by (simp add: xgb_folds_def array_split_def fold_sizes_def upt_rec ex_library_def Let_def)

lemma ex_fold_scores:
  "map (fold_score root_mean_squared_error (xgb_booster ex_library r) ex_X ex_y)
     (xgb_folds ex_library 7) = [real r, real r, real r, real r, real r]"
proof -
  have 2: "root_mean_squared_error [0, 0] [real r, real r] = real r"
    using rmse_zero_const [of 2 "real r"] by (simp add: numeral_2_eq_2)
  have 1: "root_mean_squared_error [0] [real r] = real r"
    using rmse_zero_const [of 1 "real r"] by simp
  show ?thesis
    by (simp add: ex_xgb_folds fold_score_def take_rows_def ex_X_def ex_y_def 1 2)
      (simp add: ex_library_def 1 2)
qed

text \<open>
  C5: the comparison value of every model should be the mean of the per-fold errors of
  its 5-fold cross-validation. For the boosted trees it is not: with a booster whose error
  after \<open>r\<close> rounds is \<open>r\<close> on every fold, the per-fold errors of the model of 100 rounds
  have the mean 100, and the script reports 50.5, the average over all rounds 1 to 100.
\<close>

theorem xgboost_cv_averages_rounds:
  "run_cv_xgboost (model_stage ex_library ex_X ex_y) = Some (101 / 2) \<and>
   mean (map (fold_score root_mean_squared_error (xgb_booster ex_library 100) ex_X ex_y)
          (xgb_folds ex_library 7)) = 100"
proof -
  have "\<exists>out. model_stage ex_library ex_X ex_y = Inr out"
    by (rule model_stage_total) (simp_all add: ex_X_def ex_y_def ex_library_def)
  then obtain out where o: "model_stage ex_library ex_X ex_y = Inr out" by blast
  from model_stage_Inr [OF o] have
    "cross_val_score_xgboost out = frame_mean (xgb_cv ex_library ex_X ex_y 100) ! 2" by blast
  also have "\<dots> = mean (map (\<lambda>r. mean (map (fold_score root_mean_squared_error
        (xgb_booster ex_library r) ex_X ex_y) (xgb_folds ex_library (length ex_X)))) [1..<Suc (Suc 99)])"
    using xgb_cv_mean [of ex_library ex_X ex_y 99] by simp
  also have "length ex_X = 7" by (simp add: ex_X_def)
  also have "mean (map (\<lambda>r. mean (map (fold_score root_mean_squared_error
        (xgb_booster ex_library r) ex_X ex_y) (xgb_folds ex_library 7))) [1..<Suc (Suc 99)])
      = mean (map real [1..<Suc 100])"
    by (simp add: ex_fold_scores mean_def)
  also have "\<dots> = 101 / 2"
    unfolding mean_def sum_real_upt by simp
  finally have "run_cv_xgboost (model_stage ex_library ex_X ex_y) = Some (101 / 2)"
    by (simp add: o run_cv_xgboost_def)
  moreover have "mean (map (fold_score root_mean_squared_error (xgb_booster ex_library 100) ex_X ex_y)
          (xgb_folds ex_library 7)) = 100"
    by (simp add: ex_fold_scores mean_def)
  ultimately show ?thesis by simp
qed

end
